theory Spec2Isabelle
  imports Complex_Main "HOL-Library.Finite_Map"
begin

section \<open>QuantifyMe: the score engine and the record repository\<close>

text \<open>
  The development embeds two modules of the application:
  \<^item> \<^verbatim>\<open>app/services/score_engine.py\<close>: \<^verbatim>\<open>validate_input\<close>, \<^verbatim>\<open>compute_scj\<close>;
  \<^item> \<^verbatim>\<open>app/persistence/repositories/records_repo.py\<close> over the table declared in
    \<^verbatim>\<open>app/persistence/models.py\<close> and the session of \<^verbatim>\<open>app/persistence/db.py\<close>.

  Conventions of the embedding.
  \<^item> A Python \<^verbatim>\<open>float\<close> is a \<^typ>\<open>real\<close>: arithmetic is exact, there is no NaN and no
    infinity, and the rounding error of binary floating point is outside the model.
  \<^item> An exception is a value of the type \<open>error\<close>; a function that may raise returns
    \<open>error + 'a\<close> with \<open>Inl\<close> for the exception.
  \<^item> A calendar day (\<^verbatim>\<open>datetime.date\<close>) is its proleptic ordinal, an \<^typ>\<open>int\<close>; comparing
    dates and subtracting \<^verbatim>\<open>timedelta(days=6)\<close> are then integer operations.
  \<^item> The database is the list of the rows of the table \<^verbatim>\<open>records\<close>, in insertion order.
    Every repository method runs in one session that commits on return and rolls back on
    an exception, so a method maps a table to a result and a table, and the table is
    unchanged whenever the result is an exception.
\<close>

subsection \<open>Score engine: data\<close>

definition MIN_SCALE :: real where
  "MIN_SCALE = 0"

definition MAX_SCALE :: real where
  "MAX_SCALE = 10"

definition MAX_SLEEP_HOURS :: real where
  "MAX_SLEEP_HOURS = 14"

text \<open>A weight dictionary \<^verbatim>\<open>Dict[str, float]\<close>: a finite map from keys to weights.\<close>

type_synonym weights = "(string, real) fmap"

definition DEFAULT_WEIGHTS :: weights where
  "DEFAULT_WEIGHTS = fmap_of_list
     [(''concentration'', 2), (''humeur'', 1), (''sommeil'', 1), (''stress'', - 1)]"

record DailyInput =
  humeur :: real
  sommeil :: real
  stress :: real
  concentration :: real

record ScoreResult =
  scj :: real
  raw :: real
  weights :: weights

text \<open>
  One entry of the list \<^verbatim>\<open>errors\<close> of \<^verbatim>\<open>validate_input\<close>. The source keeps the entry as the
  text \<^verbatim>\<open>f"{name} hors bornes: {v} (attendu {lo}..{hi})"\<close>; the model keeps the four values
  that the text is built from.
\<close>

record violation =
  vname :: string
  vvalue :: real
  vlo :: real
  vhi :: real

text \<open>
  The exceptions of both modules. \<open>InputValidationError\<close> carries the list \<^verbatim>\<open>errors\<close>, whose
  entries the source joins with \<^verbatim>\<open>"; "\<close> into the message. \<open>ValueError_isoformat\<close> is the
  \<^verbatim>\<open>ValueError\<close> of \<^verbatim>\<open>date.fromisoformat\<close>, \<open>ValueError_record_present\<close> the
  \<^verbatim>\<open>ValueError\<close> that \<^verbatim>\<open>RecordRepository.add\<close> raises for the day given.
  \<open>IntegrityError\<close> is raised by the database when a flush violates a constraint of the
  table.
\<close>

datatype constraint = NotNull | PrimaryKey | Uq_user_day

datatype error =
    InputValidationError "violation list"
  | TypeError
  | ValueError_isoformat string
  | ValueError_record_present int
  | IntegrityError constraint

subsection \<open>Score engine: operations\<close>

definition clamp :: "real \<Rightarrow> real \<Rightarrow> real \<Rightarrow> real" where
  "clamp v low high = max low (min high v)"

text \<open>The nested function \<^verbatim>\<open>_check\<close>, with the list it appends to passed through.\<close>

definition check :: "string \<Rightarrow> real \<Rightarrow> real \<Rightarrow> real \<Rightarrow> violation list \<Rightarrow> violation list" where
  "check name v lo hi errors =
     (if \<not> (lo \<le> v \<and> v \<le> hi)
      then errors @ [\<lparr>vname = name, vvalue = v, vlo = lo, vhi = hi\<rparr>]
      else errors)"

definition validate_input :: "DailyInput \<Rightarrow> error + unit" where
  "validate_input d =
     (let errors = [];
          errors = check ''humeur'' (DailyInput.humeur d) MIN_SCALE MAX_SCALE errors;
          errors = check ''stress'' (DailyInput.stress d) MIN_SCALE MAX_SCALE errors;
          errors = check ''concentration'' (DailyInput.concentration d) MIN_SCALE MAX_SCALE errors;
          errors = check ''sommeil (heures)'' (DailyInput.sommeil d) 0 MAX_SLEEP_HOURS errors
      in if errors \<noteq> [] then Inl (InputValidationError errors) else Inr ())"

text \<open>\<^verbatim>\<open>w.get(k, default)\<close> and \<^verbatim>\<open>sum(abs(x) for x in w.values())\<close> on a dictionary.\<close>

definition get :: "weights \<Rightarrow> string \<Rightarrow> real \<Rightarrow> real" where
  "get w k dflt = (case fmlookup w k of None \<Rightarrow> dflt | Some x \<Rightarrow> x)"

definition sum_abs_values :: "weights \<Rightarrow> real" where
  "sum_abs_values w = (\<Sum>k \<in> fmdom' w. case fmlookup w k of None \<Rightarrow> 0 | Some x \<Rightarrow> \<bar>x\<bar>)"

text \<open>
  Python's \<^verbatim>\<open>round(x, ndigits)\<close> on a float rounds the exact value of \<open>x\<close> to the nearest
  multiple of \<open>10 ^ (- ndigits)\<close>, a tie going to the even multiple.
\<close>

definition round_half_even :: "real \<Rightarrow> int" where
  "round_half_even x =
     (let f = \<lfloor>x\<rfloor>; r = x - of_int f
      in if r < 1 / 2 then f
         else if 1 / 2 < r then f + 1
         else if even f then f else f + 1)"

definition py_round :: "real \<Rightarrow> int \<Rightarrow> real" where
  "py_round x ndigits =
     (if 0 \<le> ndigits
      then of_int (round_half_even (x * 10 ^ nat ndigits)) / 10 ^ nat ndigits
      else of_int (round_half_even (x / 10 ^ nat (- ndigits))) * 10 ^ nat (- ndigits))"

definition compute_scj :: "DailyInput \<Rightarrow> weights option \<Rightarrow> int \<Rightarrow> bool \<Rightarrow> error + ScoreResult" where
  "compute_scj d weights_arg rounding clamp_output =
     (case validate_input d of
        Inl e \<Rightarrow> Inl e
      | Inr _ \<Rightarrow>
         (let w = (case weights_arg of None \<Rightarrow> DEFAULT_WEIGHTS | Some ws \<Rightarrow> ws);
              numerator =
                get w ''concentration'' 0 * DailyInput.concentration d
                + get w ''humeur'' 0 * DailyInput.humeur d
                + get w ''sommeil'' 0 * DailyInput.sommeil d
                + get w ''stress'' 0 * DailyInput.stress d;
              denom = (let s = sum_abs_values w in if s = 0 then 1 else s);
              raw_score = numerator / denom;
              final = (if clamp_output then clamp raw_score MIN_SCALE MAX_SCALE else raw_score);
              final = py_round final rounding
          in Inr \<lparr>scj = final, raw = raw_score, weights = w\<rparr>))"

subsection \<open>Record repository: data\<close>

text \<open>A calendar day, as its ordinal.\<close>

type_synonym day = int

text \<open>
  A row of the table \<^verbatim>\<open>records\<close> (class \<^verbatim>\<open>Record\<close>). The column \<^verbatim>\<open>id\<close> is \<open>id'\<close> and the
  column \<^verbatim>\<open>interpretation\<close> is \<open>interpretation_text\<close>, since the source's names are taken in
  Isabelle. \<open>created_at\<close> is a time stamp, a natural number.
\<close>

record Record =
  id' :: int
  user_id :: int
  date :: day
  humeur :: real
  sommeil :: real
  stress :: real
  concentration :: real
  scj :: real
  interpretation_text :: "string option"
  created_at :: nat

type_synonym table = "Record list"

text \<open>
  The keyword arguments \<^verbatim>\<open>**fields\<close> of \<^verbatim>\<open>add\<close> and \<^verbatim>\<open>upsert\<close>: a partial assignment of the
  columns, \<open>None\<close> for a keyword that the call does not pass. Every column of the table
  can be named but \<^verbatim>\<open>user_id\<close> and \<^verbatim>\<open>date\<close>, which the named parameters bind: the six data
  columns, and also \<^verbatim>\<open>id\<close> and \<^verbatim>\<open>created_at\<close>. \<^verbatim>\<open>interpretation=None\<close> is \<open>Some None\<close>, which
  differs from leaving the keyword out. A value has the type of its column.
\<close>

record fields =
  f_humeur :: "real option"
  f_sommeil :: "real option"
  f_stress :: "real option"
  f_concentration :: "real option"
  f_scj :: "real option"
  f_interpretation :: "string option option"
  f_id :: "int option"
  f_created_at :: "nat option"

text \<open>
  The argument \<^verbatim>\<open>date\<close> of a repository method is dynamically typed: a \<^verbatim>\<open>datetime\<close> (day and
  time of day), a \<^verbatim>\<open>date\<close>, a \<^verbatim>\<open>str\<close>, \<^verbatim>\<open>None\<close>, or any other object, of which only the truth
  value matters.
\<close>

datatype date_arg =
    DatetimeArg day nat
  | DateArg day
  | StrArg string
  | NoneArg
  | OtherArg bool

text \<open>
  \<^verbatim>\<open>date.fromisoformat\<close> belongs to the standard library and is a parameter \<open>fromiso\<close> of the
  model: \<open>fromiso s\<close> is the day that the text \<open>s\<close> denotes, \<open>None\<close> where the parser raises.
\<close>

type_synonym isoparser = "string \<Rightarrow> day option"

text \<open>One call of the repository, for sequences of calls.\<close>

datatype call =
    Add nat int date_arg fields
  | Upsert nat int date_arg fields
  | Delete int date_arg

subsection \<open>Record repository: operations\<close>

definition normalize_date :: "isoparser \<Rightarrow> date_arg \<Rightarrow> error + day" where
  "normalize_date fromiso d =
     (case d of
        DatetimeArg dy t \<Rightarrow> Inr dy
      | DateArg dy \<Rightarrow> Inr dy
      | StrArg s \<Rightarrow> (case fromiso s of None \<Rightarrow> Inl (ValueError_isoformat s) | Some dy \<Rightarrow> Inr dy)
      | NoneArg \<Rightarrow> Inl TypeError
      | OtherArg b \<Rightarrow> Inl TypeError)"

text \<open>The truth value of an argument, as \<^verbatim>\<open>if end_date\<close> tests it.\<close>

definition truthy :: "date_arg \<Rightarrow> bool" where
  "truthy d =
     (case d of
        DatetimeArg dy t \<Rightarrow> True
      | DateArg dy \<Rightarrow> True
      | StrArg s \<Rightarrow> s \<noteq> []
      | NoneArg \<Rightarrow> False
      | OtherArg b \<Rightarrow> b)"

text \<open>
  \<^verbatim>\<open>s.scalar(select(Record).where(and_(Record.user_id == user_id, Record.date == day)))\<close>:
  the first row that matches, or \<open>None\<close>.
\<close>

definition select_by_key :: "int \<Rightarrow> day \<Rightarrow> table \<Rightarrow> Record option" where
  "select_by_key uid dy rows = find (\<lambda>r. user_id r = uid \<and> date r = dy) rows"

text \<open>
  The primary key that SQLite, the engine of the default \<^verbatim>\<open>DB_URL\<close>, gives a new row of a
  table with an integer primary key: one more than the largest key present, 1 in an
  empty table.
\<close>

definition next_id :: "table \<Rightarrow> int" where
  "next_id rows =
     (case rows of
        [] \<Rightarrow> 1
      | r # rs \<Rightarrow> fold (\<lambda>x m. max (id' x) m) rs (id' r) + 1)"

text \<open>
  \<^verbatim>\<open>r = Record(user_id=user_id, date=day, **fields); s.add(r); s.flush(); s.refresh(r)\<close>:
  the insertion of a new row. \<^verbatim>\<open>id\<close> is the keyword's value, or the key that the engine
  assigns; \<open>created_at\<close> is the keyword's value, or the current time \<open>now\<close>. The flush fails
  on a data column that is \<^verbatim>\<open>NOT NULL\<close> and was not passed, on an \<^verbatim>\<open>id\<close> that a row already
  has, and on a row that already holds the pair of \<^verbatim>\<open>uq_user_day\<close>.
\<close>

definition insert_row :: "nat \<Rightarrow> int \<Rightarrow> day \<Rightarrow> fields \<Rightarrow> table \<Rightarrow> error + (Record \<times> table)" where
  "insert_row now uid dy f rows =
     (case (f_humeur f, f_sommeil f, f_stress f, f_concentration f, f_scj f) of
        (Some h, Some so, Some st, Some c, Some sc) \<Rightarrow>
          (let r = \<lparr>id' = (case f_id f of None \<Rightarrow> next_id rows | Some i \<Rightarrow> i),
                     user_id = uid, date = dy,
                     humeur = h, sommeil = so, stress = st, concentration = c, scj = sc,
                     interpretation_text = (case f_interpretation f of None \<Rightarrow> None | Some v \<Rightarrow> v),
                     created_at = (case f_created_at f of None \<Rightarrow> now | Some t \<Rightarrow> t)\<rparr>
           in if list_ex (\<lambda>x. id' x = id' r) rows
              then Inl (IntegrityError PrimaryKey)
              else if list_ex (\<lambda>x. user_id x = uid \<and> date x = dy) rows
              then Inl (IntegrityError Uq_user_day)
              else Inr (r, rows @ [r]))
      | _ \<Rightarrow> Inl (IntegrityError NotNull))"

text \<open>
  \<^verbatim>\<open>for k, v in fields.items(): setattr(rec, k, v)\<close>: every keyword passed is assigned,
  \<^verbatim>\<open>id\<close> and \<^verbatim>\<open>created_at\<close> among them.
\<close>

definition setattrs :: "fields \<Rightarrow> Record \<Rightarrow> Record" where
  "setattrs f rec =
     rec\<lparr>id' := (case f_id f of None \<Rightarrow> id' rec | Some i \<Rightarrow> i),
         humeur := (case f_humeur f of None \<Rightarrow> humeur rec | Some v \<Rightarrow> v),
         sommeil := (case f_sommeil f of None \<Rightarrow> sommeil rec | Some v \<Rightarrow> v),
         stress := (case f_stress f of None \<Rightarrow> stress rec | Some v \<Rightarrow> v),
         concentration := (case f_concentration f of None \<Rightarrow> concentration rec | Some v \<Rightarrow> v),
         scj := (case f_scj f of None \<Rightarrow> scj rec | Some v \<Rightarrow> v),
         interpretation_text :=
           (case f_interpretation f of None \<Rightarrow> interpretation_text rec | Some v \<Rightarrow> v),
         created_at := (case f_created_at f of None \<Rightarrow> created_at rec | Some t \<Rightarrow> t)\<rparr>"

text \<open>
  The flush of a changed object: \<^verbatim>\<open>UPDATE records SET ... WHERE id = old\<close>, where \<open>old\<close> is
  the \<^verbatim>\<open>id\<close> under which the row was loaded. It fails when the new \<^verbatim>\<open>id\<close> is the \<^verbatim>\<open>id\<close> of
  another row.
\<close>

definition update_row :: "int \<Rightarrow> Record \<Rightarrow> table \<Rightarrow> table" where
  "update_row old rec rows = map (\<lambda>r. if id' r = old then rec else r) rows"

definition flush_update :: "Record \<Rightarrow> Record \<Rightarrow> table \<Rightarrow> error + table" where
  "flush_update rec rec' rows =
     (if list_ex (\<lambda>x. id' x = id' rec' \<and> id' x \<noteq> id' rec) rows
      then Inl (IntegrityError PrimaryKey)
      else Inr (update_row (id' rec) rec' rows))"

text \<open>\<^verbatim>\<open>s.delete(rec)\<close>: \<^verbatim>\<open>DELETE FROM records WHERE id = rec.id\<close>.\<close>

definition delete_row :: "Record \<Rightarrow> table \<Rightarrow> table" where
  "delete_row rec rows = filter (\<lambda>r. id' r \<noteq> id' rec) rows"

text \<open>
  \<^verbatim>\<open>RecordRepository.add\<close>. \<^verbatim>\<open>exists\<close> is the \<^verbatim>\<open>id\<close> of the first matching row or \<^verbatim>\<open>None\<close>, and
  \<^verbatim>\<open>if exists\<close> holds for an \<^verbatim>\<open>id\<close> other than 0.
\<close>

definition add :: "isoparser \<Rightarrow> table \<Rightarrow> nat \<Rightarrow> int \<Rightarrow> date_arg \<Rightarrow> fields \<Rightarrow> (error + Record) \<times> table" where
  "add fromiso s now uid d f =
     (case normalize_date fromiso d of
        Inl e \<Rightarrow> (Inl e, s)
      | Inr dy \<Rightarrow>
         (let exists = map_option id' (select_by_key uid dy s)
          in if (case exists of None \<Rightarrow> False | Some i \<Rightarrow> i \<noteq> 0)
             then (Inl (ValueError_record_present dy), s)
             else (case insert_row now uid dy f s of
                     Inl e \<Rightarrow> (Inl e, s)
                   | Inr (r, s') \<Rightarrow> (Inr r, s'))))"

definition upsert :: "isoparser \<Rightarrow> table \<Rightarrow> nat \<Rightarrow> int \<Rightarrow> date_arg \<Rightarrow> fields \<Rightarrow> (error + Record) \<times> table" where
  "upsert fromiso s now uid d f =
     (case normalize_date fromiso d of
        Inl e \<Rightarrow> (Inl e, s)
      | Inr dy \<Rightarrow>
         (case select_by_key uid dy s of
            Some rec \<Rightarrow>
              (let rec' = setattrs f rec
               in case flush_update rec rec' s of
                    Inl e \<Rightarrow> (Inl e, s)
                  | Inr s' \<Rightarrow> (Inr rec', s'))
          | None \<Rightarrow>
             (case insert_row now uid dy f s of
                Inl e \<Rightarrow> (Inl e, s)
              | Inr (r, s') \<Rightarrow> (Inr r, s'))))"

definition delete :: "isoparser \<Rightarrow> table \<Rightarrow> int \<Rightarrow> date_arg \<Rightarrow> (error + bool) \<times> table" where
  "delete fromiso s uid d =
     (case normalize_date fromiso d of
        Inl e \<Rightarrow> (Inl e, s)
      | Inr dy \<Rightarrow>
         (case select_by_key uid dy s of
            None \<Rightarrow> (Inr False, s)
          | Some rec \<Rightarrow> (Inr True, delete_row rec s)))"




text \<open>
  \<^verbatim>\<open>RecordRepository.weekly_avg\<close>; \<open>today\<close> is \<^verbatim>\<open>dt.date.today()\<close>. \<^verbatim>\<open>func.avg\<close> over no row
  is \<^verbatim>\<open>NULL\<close>, which the method returns as \<^verbatim>\<open>None\<close>.
\<close>

definition end_or_today :: "isoparser \<Rightarrow> day \<Rightarrow> date_arg \<Rightarrow> error + day" where
  "end_or_today fromiso today end_date =
     (if truthy end_date then normalize_date fromiso end_date else Inr today)"

definition weekly_avg :: "isoparser \<Rightarrow> day \<Rightarrow> table \<Rightarrow> int \<Rightarrow> date_arg \<Rightarrow> error + real option" where
  "weekly_avg fromiso today s uid end_date =
     (case end_or_today fromiso today end_date of
        Inl e \<Rightarrow> Inl e
      | Inr end \<Rightarrow>
         (let start = end - 6;
              xs = map scj (filter (\<lambda>r. user_id r = uid \<and> start \<le> date r \<and> date r \<le> end) s)
          in Inr (if xs = [] then None else Some (sum_list xs / of_nat (length xs)))))"

text \<open>A sequence of calls, each on the table that the call before left.\<close>

fun step :: "isoparser \<Rightarrow> table \<Rightarrow> call \<Rightarrow> table" where
  "step fromiso s (Add now uid d f) = snd (add fromiso s now uid d f)"
| "step fromiso s (Upsert now uid d f) = snd (upsert fromiso s now uid d f)"
| "step fromiso s (Delete uid d) = snd (delete fromiso s uid d)"

definition run :: "isoparser \<Rightarrow> table \<Rightarrow> call list \<Rightarrow> table" where
  "run fromiso s calls = foldl (step fromiso) s calls"

text \<open>
  The constraints that the database keeps on the table: the primary key \<^verbatim>\<open>id\<close> and
  \<^verbatim>\<open>uq_user_day\<close> on the pair \<^verbatim>\<open>(user_id, date)\<close>; they are \<open>keys_ok\<close>. The keys that the
  engine assigns are at least 1: \<open>table_ok\<close> is a table whose keys are all of that kind.
\<close>

definition uq_user_day :: "table \<Rightarrow> bool" where
  "uq_user_day rows = distinct (map (\<lambda>r. (user_id r, date r)) rows)"

definition keys_ok :: "table \<Rightarrow> bool" where
  "keys_ok rows \<longleftrightarrow> distinct (map id' rows) \<and> uq_user_day rows"

definition table_ok :: "table \<Rightarrow> bool" where
  "table_ok rows \<longleftrightarrow>
     distinct (map id' rows) \<and> uq_user_day rows \<and> list_all (\<lambda>r. 0 < id' r) rows"

subsection \<open>Example data\<close>

text \<open>
  The inputs of the examples: the day of the end-to-end scenario, a day with three fields
  out of bounds, a weight dictionary without the key \<^verbatim>\<open>humeur\<close>, a parser that accepts no
  text, three sets of keyword arguments (the second without \<^verbatim>\<open>interpretation\<close>, the third
  with \<^verbatim>\<open>id\<close> and \<^verbatim>\<open>created_at\<close> only), a stored row for 2025-03-03, two tables for the week
  that ends on 2025-07-07, and a table with two rows of one user and day, which
  \<^verbatim>\<open>uq_user_day\<close> does not admit.
\<close>

definition scenario_day :: DailyInput where
  "scenario_day = \<lparr>DailyInput.humeur = 7, sommeil = 13 / 2, stress = 3, concentration = 15 / 2\<rparr>"

definition invalid_day :: DailyInput where
  "invalid_day = \<lparr>DailyInput.humeur = 11, sommeil = 15, stress = 3, concentration = - 1\<rparr>"

definition weights_without_humeur :: weights where
  "weights_without_humeur = fmap_of_list [(''concentration'', 2), (''sommeil'', 1), (''stress'', - 1)]"

definition no_parser :: isoparser where
  "no_parser s = None"

definition first_entry :: fields where
  "first_entry = \<lparr>f_humeur = Some 5, f_sommeil = Some 7, f_stress = Some 3, f_concentration = Some 6,
      f_scj = Some (24 / 5), f_interpretation = Some (Some ''OK''), f_id = None,
      f_created_at = None\<rparr>"

definition second_entry :: fields where
  "second_entry = \<lparr>f_humeur = Some 6, f_sommeil = Some 7, f_stress = Some 2, f_concentration = Some 7,
      f_scj = Some (32 / 5), f_interpretation = None, f_id = None, f_created_at = None\<rparr>"

definition id_entry :: fields where
  "id_entry = \<lparr>f_humeur = None, f_sommeil = None, f_stress = None, f_concentration = None,
      f_scj = None, f_interpretation = None, f_id = Some 99, f_created_at = Some 7\<rparr>"

definition stored_row :: Record where
  "stored_row = \<lparr>id' = 1, user_id = 1, date = 739313, humeur = 5, sommeil = 7, stress = 3,
      concentration = 6, scj = 24 / 5, interpretation_text = Some ''OK'', created_at = 0\<rparr>"

definition test_row :: "int \<Rightarrow> int \<Rightarrow> day \<Rightarrow> real \<Rightarrow> Record" where
  "test_row i uid dy sc = \<lparr>id' = i, user_id = uid, date = dy, humeur = 6, sommeil = 7, stress = 3,
      concentration = 6, scj = sc, interpretation_text = None, created_at = 0\<rparr>"

definition week_full :: table where
  "week_full = [test_row 1 1 739433 1, test_row 2 1 739434 2, test_row 3 1 739435 3,
      test_row 4 1 739436 4, test_row 5 1 739437 5, test_row 6 1 739438 6, test_row 7 1 739439 7]"

definition week_sparse :: table where
  "week_sparse = [test_row 1 1 739433 5, test_row 2 2 739434 1, test_row 3 1 739436 7,
      test_row 4 1 739432 2, test_row 5 1 739439 9]"


section \<open>Score engine: properties\<close>

subsection \<open>Validation\<close>

lemma in_domain_check:
  "check name v lo hi errors = errors @ (if lo \<le> v \<and> v \<le> hi then [] else [\<lparr>vname = name, vvalue = v, vlo = lo, vhi = hi\<rparr>])"
  by (simp add: check_def)

lemma validate_input_ok_iff:
  "validate_input d = Inr () \<longleftrightarrow>
     (0 \<le> DailyInput.humeur d \<and> DailyInput.humeur d \<le> 10) \<and>
     (0 \<le> DailyInput.stress d \<and> DailyInput.stress d \<le> 10) \<and>
     (0 \<le> DailyInput.concentration d \<and> DailyInput.concentration d \<le> 10) \<and>
     (0 \<le> DailyInput.sommeil d \<and> DailyInput.sommeil d \<le> 14)"
  by (auto simp: validate_input_def in_domain_check MIN_SCALE_def MAX_SCALE_def MAX_SLEEP_HOURS_def Let_def)

lemma validate_input_errors:
  "validate_input d =
     (let vs = filter (\<lambda>v. \<not> (vlo v \<le> vvalue v \<and> vvalue v \<le> vhi v))
            [\<lparr>vname = ''humeur'', vvalue = DailyInput.humeur d, vlo = 0, vhi = 10\<rparr>,
             \<lparr>vname = ''stress'', vvalue = DailyInput.stress d, vlo = 0, vhi = 10\<rparr>,
             \<lparr>vname = ''concentration'', vvalue = DailyInput.concentration d, vlo = 0, vhi = 10\<rparr>,
             \<lparr>vname = ''sommeil (heures)'', vvalue = DailyInput.sommeil d, vlo = 0, vhi = 14\<rparr>]
      in if vs = [] then Inr () else Inl (InputValidationError vs))"
  by (simp add: validate_input_def in_domain_check MIN_SCALE_def MAX_SCALE_def MAX_SLEEP_HOURS_def Let_def)

lemma scenario_valid: "validate_input scenario_day = Inr ()"
  by (simp add: validate_input_ok_iff scenario_day_def)

subsection \<open>Numerator and denominator\<close>

lemma sum_abs_values_four:
  assumes "fmdom' w \<subseteq> {''concentration'', ''humeur'', ''sommeil'', ''stress''}"
  shows "sum_abs_values w =
    \<bar>get w ''concentration'' 0\<bar> + \<bar>get w ''humeur'' 0\<bar> + \<bar>get w ''sommeil'' 0\<bar> + \<bar>get w ''stress'' 0\<bar>"
proof -
  let ?N = "{''concentration'', ''humeur'', ''sommeil'', ''stress''}"
  let ?g = "\<lambda>k. case fmlookup w k of None \<Rightarrow> 0 | Some x \<Rightarrow> \<bar>x\<bar>"
  have "sum ?g (fmdom' w) = sum ?g ?N"
  proof (rule sum.mono_neutral_left)
    show "finite ?N" by simp
    show "fmdom' w \<subseteq> ?N" by (rule assms)
    show "\<forall>i\<in>?N - fmdom' w. ?g i = 0"
      by (auto simp: fmdom'_notI split: option.splits)
  qed
  also have "\<dots> = ?g ''concentration'' + ?g ''humeur'' + ?g ''sommeil'' + ?g ''stress''"
    by simp
  also have "\<dots> = \<bar>get w ''concentration'' 0\<bar> + \<bar>get w ''humeur'' 0\<bar> + \<bar>get w ''sommeil'' 0\<bar> + \<bar>get w ''stress'' 0\<bar>"
    by (simp add: get_def split: option.splits)
  finally show ?thesis by (simp add: sum_abs_values_def)
qed

lemma sum_abs_values_nonneg: "0 \<le> sum_abs_values w"
  unfolding sum_abs_values_def by (rule sum_nonneg) (simp split: option.splits)

lemma sum_abs_values_fmupd:
  assumes "k \<notin> fmdom' w"
  shows "sum_abs_values (fmupd k v w) = sum_abs_values w + \<bar>v\<bar>"
proof -
  have "sum_abs_values (fmupd k v w)
      = (\<Sum>x \<in> insert k (fmdom' w). case fmlookup (fmupd k v w) x of None \<Rightarrow> 0 | Some y \<Rightarrow> \<bar>y\<bar>)"
    by (simp add: sum_abs_values_def)
  also have "\<dots> = \<bar>v\<bar> + (\<Sum>x \<in> fmdom' w. case fmlookup (fmupd k v w) x of None \<Rightarrow> 0 | Some y \<Rightarrow> \<bar>y\<bar>)"
    using assms by (subst sum.insert) simp_all
  also have "(\<Sum>x \<in> fmdom' w. case fmlookup (fmupd k v w) x of None \<Rightarrow> 0 | Some y \<Rightarrow> \<bar>y\<bar>)
      = (\<Sum>x \<in> fmdom' w. case fmlookup w x of None \<Rightarrow> 0 | Some y \<Rightarrow> \<bar>y\<bar>)"
    using assms by (intro sum.cong) auto
  finally show ?thesis by (simp add: sum_abs_values_def)
qed

lemma get_fmupd_other: "k \<noteq> n \<Longrightarrow> get (fmupd k v w) n 0 = get w n 0"
  by (simp add: get_def)

lemma default_dom: "fmdom' DEFAULT_WEIGHTS = {''concentration'', ''humeur'', ''sommeil'', ''stress''}"
  by (auto simp: DEFAULT_WEIGHTS_def fmdom'_alt_def)

lemma default_get:
  "get DEFAULT_WEIGHTS ''concentration'' 0 = 2"
  "get DEFAULT_WEIGHTS ''humeur'' 0 = 1"
  "get DEFAULT_WEIGHTS ''sommeil'' 0 = 1"
  "get DEFAULT_WEIGHTS ''stress'' 0 = - 1"
  by (simp_all add: DEFAULT_WEIGHTS_def get_def)

lemma default_sum: "sum_abs_values DEFAULT_WEIGHTS = 5"
  using sum_abs_values_four[of DEFAULT_WEIGHTS] by (simp add: default_dom default_get)

lemma without_humeur_dom:
  "fmdom' weights_without_humeur = {''concentration'', ''sommeil'', ''stress''}"
  by (auto simp: weights_without_humeur_def fmdom'_alt_def)

lemma without_humeur_sum: "sum_abs_values weights_without_humeur = 4"
  using sum_abs_values_four [of weights_without_humeur]
  by (simp add: without_humeur_dom) (simp add: weights_without_humeur_def get_def)

lemma compute_scj_default:
  assumes "validate_input d = Inr ()"
  shows "compute_scj d None n c =
    Inr \<lparr>ScoreResult.scj = py_round (let r = (2 * DailyInput.concentration d + DailyInput.humeur d + DailyInput.sommeil d - DailyInput.stress d) / 5
                           in if c then clamp r 0 10 else r) n,
         raw = (2 * DailyInput.concentration d + DailyInput.humeur d + DailyInput.sommeil d - DailyInput.stress d) / 5,
         weights = DEFAULT_WEIGHTS\<rparr>"
  using assms by (simp add: compute_scj_def default_get default_sum Let_def MIN_SCALE_def MAX_SCALE_def)

subsection \<open>Rounding and clamping are monotone\<close>

lemma round_half_even_floor: "\<lfloor>x\<rfloor> \<le> round_half_even x" "round_half_even x \<le> \<lfloor>x\<rfloor> + 1"
  unfolding round_half_even_def Let_def by auto

lemma round_half_even_mono:
  assumes "x \<le> y"
  shows "round_half_even x \<le> round_half_even y"
proof (cases "\<lfloor>x\<rfloor> = \<lfloor>y\<rfloor>")
  case True
  with assms show ?thesis
    unfolding round_half_even_def Let_def by auto
next
  case False
  with assms have "\<lfloor>x\<rfloor> + 1 \<le> \<lfloor>y\<rfloor>"
    using floor_mono [of x y] by linarith
  then show ?thesis
    using round_half_even_floor(2) [of x] round_half_even_floor(1) [of y] by linarith
qed

lemma py_round_mono:
  assumes "x \<le> y"
  shows "py_round x n \<le> py_round y n"
proof (cases "0 \<le> n")
  case True
  have "x * 10 ^ nat n \<le> y * 10 ^ nat n"
    using assms by (simp add: mult_right_mono)
  then have "round_half_even (x * 10 ^ nat n) \<le> round_half_even (y * 10 ^ nat n)"
    by (rule round_half_even_mono)
  then have "(of_int (round_half_even (x * 10 ^ nat n)) :: real) \<le> of_int (round_half_even (y * 10 ^ nat n))"
    by simp
  then show ?thesis
    using True by (simp add: py_round_def divide_right_mono)
next
  case False
  have "x / 10 ^ nat (- n) \<le> y / 10 ^ nat (- n)"
    using assms by (simp add: divide_right_mono)
  then have "round_half_even (x / 10 ^ nat (- n)) \<le> round_half_even (y / 10 ^ nat (- n))"
    by (rule round_half_even_mono)
  then have "(of_int (round_half_even (x / 10 ^ nat (- n))) :: real) \<le> of_int (round_half_even (y / 10 ^ nat (- n)))"
    by simp
  then show ?thesis
    using False by (simp add: py_round_def mult_right_mono)
qed

lemma clamp_mono: "x \<le> y \<Longrightarrow> clamp x lo hi \<le> clamp y lo hi"
  by (auto simp: clamp_def max_def min_def)

subsection \<open>The score is the weighted ratio\<close>

lemma compute_scj_ratio:
  assumes "validate_input d = Inr ()"
    and "fmdom' w \<subseteq> {''concentration'', ''humeur'', ''sommeil'', ''stress''}"
  shows "\<exists>res. compute_scj d (Some w) n c = Inr res
      \<and> raw res =
          (get w ''concentration'' 0 * DailyInput.concentration d + get w ''humeur'' 0 * DailyInput.humeur d
            + get w ''sommeil'' 0 * DailyInput.sommeil d + get w ''stress'' 0 * DailyInput.stress d)
          / (if get w ''concentration'' 0 = 0 \<and> get w ''humeur'' 0 = 0
                \<and> get w ''sommeil'' 0 = 0 \<and> get w ''stress'' 0 = 0
             then 1
             else \<bar>get w ''concentration'' 0\<bar> + \<bar>get w ''humeur'' 0\<bar>
                  + \<bar>get w ''sommeil'' 0\<bar> + \<bar>get w ''stress'' 0\<bar>)
      \<and> ScoreResult.scj res = py_round (if c then clamp (raw res) 0 10 else raw res) n
      \<and> weights res = w
      \<and> (get w ''concentration'' 0 = 0 \<and> get w ''humeur'' 0 = 0
           \<and> get w ''sommeil'' 0 = 0 \<and> get w ''stress'' 0 = 0 \<longrightarrow> raw res = 0)"
  using assms
  by (auto simp: compute_scj_def Let_def sum_abs_values_four MIN_SCALE_def MAX_SCALE_def)

text \<open>
  Claim C1, amended. For every day that passes validation and every weight dictionary whose
  keys are among the four metric names, \<open>compute_scj\<close> returns a result whose \<open>raw\<close> is the
  sum over the four metrics of weight times value (a name without an entry weighing 0),
  divided by the sum of the absolute values of the four weights, or by 1 when all four
  weights are 0, in which case \<open>raw\<close> is 0. \<open>scj\<close> is \<open>raw\<close>, clamped to between 0 and 10 when
  \<open>clamp_output\<close> holds, then rounded to \<open>rounding\<close> digits; \<open>raw\<close> itself is neither clamped
  nor rounded. Without a dictionary the default weights are used. The day of the scenario
  (humeur 7, sommeil 6.5, stress 3, concentration 7.5) with the default weights gives
  \<open>raw = 5.1\<close> and \<open>scj = 5.1\<close>: the sum is 25.5, not 25.
\<close>

theorem compute_scj_weighted_ratio:
  "(validate_input d = Inr ()
      \<and> fmdom' w \<subseteq> {''concentration'', ''humeur'', ''sommeil'', ''stress''} \<longrightarrow>
      (\<exists>res. compute_scj d (Some w) n c = Inr res
         \<and> raw res =
             (get w ''concentration'' 0 * DailyInput.concentration d
               + get w ''humeur'' 0 * DailyInput.humeur d
               + get w ''sommeil'' 0 * DailyInput.sommeil d
               + get w ''stress'' 0 * DailyInput.stress d)
             / (if get w ''concentration'' 0 = 0 \<and> get w ''humeur'' 0 = 0
                   \<and> get w ''sommeil'' 0 = 0 \<and> get w ''stress'' 0 = 0
                then 1
                else \<bar>get w ''concentration'' 0\<bar> + \<bar>get w ''humeur'' 0\<bar>
                     + \<bar>get w ''sommeil'' 0\<bar> + \<bar>get w ''stress'' 0\<bar>)
         \<and> ScoreResult.scj res = py_round (if c then clamp (raw res) 0 10 else raw res) n
         \<and> weights res = w
         \<and> (get w ''concentration'' 0 = 0 \<and> get w ''humeur'' 0 = 0
              \<and> get w ''sommeil'' 0 = 0 \<and> get w ''stress'' 0 = 0 \<longrightarrow> raw res = 0)))
   \<and> compute_scj d None n c = compute_scj d (Some DEFAULT_WEIGHTS) n c
   \<and> compute_scj scenario_day None 2 True
       = Inr \<lparr>ScoreResult.scj = 51 / 10, raw = 51 / 10, weights = DEFAULT_WEIGHTS\<rparr>"
proof (intro conjI impI)
  assume "validate_input d = Inr ()
      \<and> fmdom' w \<subseteq> {''concentration'', ''humeur'', ''sommeil'', ''stress''}"
  then show "\<exists>res. compute_scj d (Some w) n c = Inr res
         \<and> raw res =
             (get w ''concentration'' 0 * DailyInput.concentration d
               + get w ''humeur'' 0 * DailyInput.humeur d
               + get w ''sommeil'' 0 * DailyInput.sommeil d
               + get w ''stress'' 0 * DailyInput.stress d)
             / (if get w ''concentration'' 0 = 0 \<and> get w ''humeur'' 0 = 0
                   \<and> get w ''sommeil'' 0 = 0 \<and> get w ''stress'' 0 = 0
                then 1
                else \<bar>get w ''concentration'' 0\<bar> + \<bar>get w ''humeur'' 0\<bar>
                     + \<bar>get w ''sommeil'' 0\<bar> + \<bar>get w ''stress'' 0\<bar>)
         \<and> ScoreResult.scj res = py_round (if c then clamp (raw res) 0 10 else raw res) n
         \<and> weights res = w
         \<and> (get w ''concentration'' 0 = 0 \<and> get w ''humeur'' 0 = 0
              \<and> get w ''sommeil'' 0 = 0 \<and> get w ''stress'' 0 = 0 \<longrightarrow> raw res = 0)"
    using compute_scj_ratio [of d w n c] by blast
next
  show "compute_scj d None n c = compute_scj d (Some DEFAULT_WEIGHTS) n c"
    by (simp add: compute_scj_def split: sum.splits)
next
  show "compute_scj scenario_day None 2 True
       = Inr \<lparr>ScoreResult.scj = 51 / 10, raw = 51 / 10, weights = DEFAULT_WEIGHTS\<rparr>"
    by (simp add: compute_scj_default [OF scenario_valid])
      (simp add: scenario_day_def clamp_def py_round_def round_half_even_def Let_def)
qed

text \<open>
  The theorem at the day of the scenario and the default weights, given as a dictionary.
\<close>

theorem compute_scj_weighted_ratio_witness:
  "validate_input scenario_day = Inr ()
   \<and> fmdom' DEFAULT_WEIGHTS \<subseteq> {''concentration'', ''humeur'', ''sommeil'', ''stress''}
   \<and> (\<exists>res. compute_scj scenario_day (Some DEFAULT_WEIGHTS) 2 True = Inr res
         \<and> raw res = 51 / 10 \<and> ScoreResult.scj res = 51 / 10)"
proof -
  have h1: "validate_input scenario_day = Inr ()" by (rule scenario_valid)
  have h2: "fmdom' DEFAULT_WEIGHTS \<subseteq> {''concentration'', ''humeur'', ''sommeil'', ''stress''}"
    by (simp add: default_dom)
  from compute_scj_weighted_ratio [where d = scenario_day and w = DEFAULT_WEIGHTS and n = 2 and c = True]
    h1 h2
  have "\<exists>res. compute_scj scenario_day (Some DEFAULT_WEIGHTS) 2 True = Inr res
         \<and> raw res =
             (get DEFAULT_WEIGHTS ''concentration'' 0 * DailyInput.concentration scenario_day
               + get DEFAULT_WEIGHTS ''humeur'' 0 * DailyInput.humeur scenario_day
               + get DEFAULT_WEIGHTS ''sommeil'' 0 * DailyInput.sommeil scenario_day
               + get DEFAULT_WEIGHTS ''stress'' 0 * DailyInput.stress scenario_day)
             / (if get DEFAULT_WEIGHTS ''concentration'' 0 = 0 \<and> get DEFAULT_WEIGHTS ''humeur'' 0 = 0
                   \<and> get DEFAULT_WEIGHTS ''sommeil'' 0 = 0 \<and> get DEFAULT_WEIGHTS ''stress'' 0 = 0
                then 1
                else \<bar>get DEFAULT_WEIGHTS ''concentration'' 0\<bar> + \<bar>get DEFAULT_WEIGHTS ''humeur'' 0\<bar>
                     + \<bar>get DEFAULT_WEIGHTS ''sommeil'' 0\<bar> + \<bar>get DEFAULT_WEIGHTS ''stress'' 0\<bar>)
         \<and> ScoreResult.scj res = py_round (if True then clamp (raw res) 0 10 else raw res) 2"
    by blast
  then obtain res where res: "compute_scj scenario_day (Some DEFAULT_WEIGHTS) 2 True = Inr res"
    and r: "raw res = 51 / 10"
    and s: "ScoreResult.scj res = py_round (if True then clamp (raw res) 0 10 else raw res) 2"
    by (auto simp: default_get scenario_day_def)
  have "ScoreResult.scj res = 51 / 10"
    unfolding s r by (simp add: clamp_def py_round_def round_half_even_def Let_def)
  with res r h1 h2 show ?thesis by blast
qed

text \<open>
  The scenario as the specification states it, \<open>raw = 5.0\<close> and \<open>scj = 5.0\<close>, does not
  hold: both are 5.1.
\<close>

theorem scenario_score_is_not_five:
  "compute_scj scenario_day None 2 True
     = Inr \<lparr>ScoreResult.scj = 51 / 10, raw = 51 / 10, weights = DEFAULT_WEIGHTS\<rparr>
   \<and> raw \<lparr>ScoreResult.scj = 51 / 10, raw = 51 / 10, weights = DEFAULT_WEIGHTS\<rparr> \<noteq> 5
   \<and> ScoreResult.scj \<lparr>ScoreResult.scj = 51 / 10, raw = 51 / 10, weights = DEFAULT_WEIGHTS\<rparr> \<noteq> 5"
  by (simp add: compute_scj_default [OF scenario_valid])
    (simp add: scenario_day_def clamp_def py_round_def round_half_even_def Let_def)

text \<open>
  Claim C5. With the default weights and a valid day, raising \<open>concentration\<close> to a valid
  value \<open>b\<close> with the other fields fixed does not lower \<open>scj\<close>, and raising \<open>stress\<close> to a
  valid value \<open>b\<close> does not raise \<open>scj\<close>, for every number of digits and with or without
  the clamp.
\<close>

theorem compute_scj_monotone:
  assumes "validate_input d = Inr ()"
  shows "(DailyInput.concentration d \<le> b \<and> b \<le> 10 \<longrightarrow>
           (\<exists>r r'. compute_scj d None n c = Inr r
              \<and> compute_scj (d\<lparr>DailyInput.concentration := b\<rparr>) None n c = Inr r'
              \<and> ScoreResult.scj r \<le> ScoreResult.scj r'))
       \<and> (DailyInput.stress d \<le> b \<and> b \<le> 10 \<longrightarrow>
           (\<exists>r r'. compute_scj d None n c = Inr r
              \<and> compute_scj (d\<lparr>DailyInput.stress := b\<rparr>) None n c = Inr r'
              \<and> ScoreResult.scj r' \<le> ScoreResult.scj r))"
proof (intro conjI impI)
  assume b: "DailyInput.concentration d \<le> b \<and> b \<le> 10"
  let ?d = "d\<lparr>DailyInput.concentration := b\<rparr>"
  have v: "validate_input ?d = Inr ()"
    using assms b by (simp add: validate_input_ok_iff)
  show "\<exists>r r'. compute_scj d None n c = Inr r
              \<and> compute_scj ?d None n c = Inr r' \<and> ScoreResult.scj r \<le> ScoreResult.scj r'"
    using b by (auto simp: compute_scj_default [OF assms] compute_scj_default [OF v] Let_def
        intro!: py_round_mono clamp_mono)
next
  assume b: "DailyInput.stress d \<le> b \<and> b \<le> 10"
  let ?d = "d\<lparr>DailyInput.stress := b\<rparr>"
  have v: "validate_input ?d = Inr ()"
    using assms b by (simp add: validate_input_ok_iff)
  show "\<exists>r r'. compute_scj d None n c = Inr r
              \<and> compute_scj ?d None n c = Inr r' \<and> ScoreResult.scj r' \<le> ScoreResult.scj r"
    using b by (auto simp: compute_scj_default [OF assms] compute_scj_default [OF v] Let_def
        intro!: py_round_mono clamp_mono)
qed

text \<open>The theorem at the day of the scenario, for concentration 9 and for stress 5.\<close>

theorem compute_scj_monotone_witness:
  "validate_input scenario_day = Inr ()
   \<and> DailyInput.concentration scenario_day \<le> 9 \<and> (9::real) \<le> 10
   \<and> (\<exists>r r'. compute_scj scenario_day None 2 True = Inr r
         \<and> compute_scj (scenario_day\<lparr>DailyInput.concentration := 9\<rparr>) None 2 True = Inr r'
         \<and> ScoreResult.scj r \<le> ScoreResult.scj r')
   \<and> DailyInput.stress scenario_day \<le> 5 \<and> (5::real) \<le> 10
   \<and> (\<exists>r r'. compute_scj scenario_day None 2 True = Inr r
         \<and> compute_scj (scenario_day\<lparr>DailyInput.stress := 5\<rparr>) None 2 True = Inr r'
         \<and> ScoreResult.scj r' \<le> ScoreResult.scj r)"
proof -
  have h: "validate_input scenario_day = Inr ()" by (rule scenario_valid)
  have c: "DailyInput.concentration scenario_day \<le> 9 \<and> (9::real) \<le> 10"
    by (simp add: scenario_day_def)
  have s: "DailyInput.stress scenario_day \<le> 5 \<and> (5::real) \<le> 10"
    by (simp add: scenario_day_def)
  show ?thesis
    using h c s compute_scj_monotone [OF h, of 9 2 True] compute_scj_monotone [OF h, of 5 2 True] by blast
qed

text \<open>
  Claim C6. For every day with a field outside its bounds (humeur, stress and concentration
  between 0 and 10, sommeil between 0 and \<open>MAX_SLEEP_HOURS\<close>), \<open>validate_input\<close> fails with an
  \<open>InputValidationError\<close> whose entries are exactly the fields out of bounds, all of them,
  each with its name, its value and its two bounds, and \<open>compute_scj\<close> fails with the same
  error for every weight argument, number of digits and clamp flag: it returns no score.
\<close>

theorem validation_reports_every_violation:
  assumes "\<not> (0 \<le> DailyInput.humeur d \<and> DailyInput.humeur d \<le> 10)
         \<or> \<not> (0 \<le> DailyInput.sommeil d \<and> DailyInput.sommeil d \<le> MAX_SLEEP_HOURS)
         \<or> \<not> (0 \<le> DailyInput.stress d \<and> DailyInput.stress d \<le> 10)
         \<or> \<not> (0 \<le> DailyInput.concentration d \<and> DailyInput.concentration d \<le> 10)"
  shows "\<exists>vs. validate_input d = Inl (InputValidationError vs)
      \<and> compute_scj d w n c = Inl (InputValidationError vs)
      \<and> vs = filter (\<lambda>v. \<not> (vlo v \<le> vvalue v \<and> vvalue v \<le> vhi v))
            [\<lparr>vname = ''humeur'', vvalue = DailyInput.humeur d, vlo = 0, vhi = 10\<rparr>,
             \<lparr>vname = ''stress'', vvalue = DailyInput.stress d, vlo = 0, vhi = 10\<rparr>,
             \<lparr>vname = ''concentration'', vvalue = DailyInput.concentration d, vlo = 0, vhi = 10\<rparr>,
             \<lparr>vname = ''sommeil (heures)'', vvalue = DailyInput.sommeil d, vlo = 0, vhi = MAX_SLEEP_HOURS\<rparr>]"
proof -
  let ?vs = "filter (\<lambda>v. \<not> (vlo v \<le> vvalue v \<and> vvalue v \<le> vhi v))
            [\<lparr>vname = ''humeur'', vvalue = DailyInput.humeur d, vlo = 0, vhi = 10\<rparr>,
             \<lparr>vname = ''stress'', vvalue = DailyInput.stress d, vlo = 0, vhi = 10\<rparr>,
             \<lparr>vname = ''concentration'', vvalue = DailyInput.concentration d, vlo = 0, vhi = 10\<rparr>,
             \<lparr>vname = ''sommeil (heures)'', vvalue = DailyInput.sommeil d, vlo = 0, vhi = 14\<rparr>]"
  have ne: "?vs \<noteq> []"
    using assms by (auto simp: MAX_SLEEP_HOURS_def)
  have v: "validate_input d = Inl (InputValidationError ?vs)"
    using ne by (simp only: validate_input_errors Let_def if_False)
  then have "compute_scj d w n c = Inl (InputValidationError ?vs)"
    by (simp add: compute_scj_def)
  with v show ?thesis by (simp add: MAX_SLEEP_HOURS_def)
qed

text \<open>The theorem at a day with humeur 11, sommeil 15 and concentration -1.\<close>

theorem validation_reports_every_violation_witness:
  "\<not> (0 \<le> DailyInput.humeur invalid_day \<and> DailyInput.humeur invalid_day \<le> 10)
   \<and> \<not> (0 \<le> DailyInput.sommeil invalid_day \<and> DailyInput.sommeil invalid_day \<le> MAX_SLEEP_HOURS)
   \<and> \<not> (0 \<le> DailyInput.concentration invalid_day \<and> DailyInput.concentration invalid_day \<le> 10)
   \<and> validate_input invalid_day = Inl (InputValidationError
         [\<lparr>vname = ''humeur'', vvalue = 11, vlo = 0, vhi = 10\<rparr>,
          \<lparr>vname = ''concentration'', vvalue = - 1, vlo = 0, vhi = 10\<rparr>,
          \<lparr>vname = ''sommeil (heures)'', vvalue = 15, vlo = 0, vhi = 14\<rparr>])
   \<and> compute_scj invalid_day None 2 True = Inl (InputValidationError
         [\<lparr>vname = ''humeur'', vvalue = 11, vlo = 0, vhi = 10\<rparr>,
          \<lparr>vname = ''concentration'', vvalue = - 1, vlo = 0, vhi = 10\<rparr>,
          \<lparr>vname = ''sommeil (heures)'', vvalue = 15, vlo = 0, vhi = 14\<rparr>])"
proof -
  have h: "\<not> (0 \<le> DailyInput.humeur invalid_day \<and> DailyInput.humeur invalid_day \<le> 10)
     \<or> \<not> (0 \<le> DailyInput.sommeil invalid_day \<and> DailyInput.sommeil invalid_day \<le> MAX_SLEEP_HOURS)
     \<or> \<not> (0 \<le> DailyInput.stress invalid_day \<and> DailyInput.stress invalid_day \<le> 10)
     \<or> \<not> (0 \<le> DailyInput.concentration invalid_day \<and> DailyInput.concentration invalid_day \<le> 10)"
    by (simp add: invalid_day_def)
  from validation_reports_every_violation [OF h, of None 2 True] show ?thesis
    using h by (auto simp: invalid_day_def MAX_SLEEP_HOURS_def)
qed

text \<open>
  Claim C10. For a valid day and every weight dictionary, the numerator takes weight 0 for
  each of the four metric names that has no entry, and the denominator is the sum of the
  absolute values of all the entries of the dictionary (1 when that sum is 0), whatever
  their keys. Hence an entry \<open>v \<noteq> 0\<close> under a new key \<open>k\<close> that is none of the four names
  leaves the numerator as it is and adds \<open>\<bar>v\<bar>\<close> to the denominator.
\<close>

theorem compute_scj_unrecognized_key:
  assumes "validate_input d = Inr ()"
  shows "(\<exists>res. compute_scj d (Some w) n c = Inr res
          \<and> raw res =
             ((case fmlookup w ''concentration'' of None \<Rightarrow> 0 | Some x \<Rightarrow> x) * DailyInput.concentration d
              + (case fmlookup w ''humeur'' of None \<Rightarrow> 0 | Some x \<Rightarrow> x) * DailyInput.humeur d
              + (case fmlookup w ''sommeil'' of None \<Rightarrow> 0 | Some x \<Rightarrow> x) * DailyInput.sommeil d
              + (case fmlookup w ''stress'' of None \<Rightarrow> 0 | Some x \<Rightarrow> x) * DailyInput.stress d)
             / (if (\<Sum>k \<in> fmdom' w. \<bar>the (fmlookup w k)\<bar>) = 0 then 1
                else (\<Sum>k \<in> fmdom' w. \<bar>the (fmlookup w k)\<bar>)))
       \<and> (k \<notin> {''concentration'', ''humeur'', ''sommeil'', ''stress''} \<and> k \<notin> fmdom' w \<and> v \<noteq> 0 \<longrightarrow>
           (\<exists>res res' num. compute_scj d (Some w) n c = Inr res
              \<and> compute_scj d (Some (fmupd k v w)) n c = Inr res'
              \<and> raw res = num / (if sum_abs_values w = 0 then 1 else sum_abs_values w)
              \<and> raw res' = num / (sum_abs_values w + \<bar>v\<bar>)))"
proof (intro conjI impI)
  have "(\<Sum>k \<in> fmdom' w. \<bar>the (fmlookup w k)\<bar>) = sum_abs_values w"
    unfolding sum_abs_values_def by (rule sum.cong) (auto simp: fmlookup_dom'_iff)
  then show "\<exists>res. compute_scj d (Some w) n c = Inr res
          \<and> raw res =
             ((case fmlookup w ''concentration'' of None \<Rightarrow> 0 | Some x \<Rightarrow> x) * DailyInput.concentration d
              + (case fmlookup w ''humeur'' of None \<Rightarrow> 0 | Some x \<Rightarrow> x) * DailyInput.humeur d
              + (case fmlookup w ''sommeil'' of None \<Rightarrow> 0 | Some x \<Rightarrow> x) * DailyInput.sommeil d
              + (case fmlookup w ''stress'' of None \<Rightarrow> 0 | Some x \<Rightarrow> x) * DailyInput.stress d)
             / (if (\<Sum>k \<in> fmdom' w. \<bar>the (fmlookup w k)\<bar>) = 0 then 1
                else (\<Sum>k \<in> fmdom' w. \<bar>the (fmlookup w k)\<bar>))"
    using assms by (simp add: compute_scj_def Let_def get_def)
next
  assume k: "k \<notin> {''concentration'', ''humeur'', ''sommeil'', ''stress''} \<and> k \<notin> fmdom' w \<and> v \<noteq> 0"
  then have s: "sum_abs_values (fmupd k v w) = sum_abs_values w + \<bar>v\<bar>"
    by (simp add: sum_abs_values_fmupd)
  have "0 < \<bar>v\<bar>" using k by simp
  then have "0 < sum_abs_values w + \<bar>v\<bar>"
    using sum_abs_values_nonneg [of w] by linarith
  then have nz: "sum_abs_values w + \<bar>v\<bar> \<noteq> 0" by simp
  show "\<exists>res res' num. compute_scj d (Some w) n c = Inr res
              \<and> compute_scj d (Some (fmupd k v w)) n c = Inr res'
              \<and> raw res = num / (if sum_abs_values w = 0 then 1 else sum_abs_values w)
              \<and> raw res' = num / (sum_abs_values w + \<bar>v\<bar>)"
    using assms k nz by (simp add: compute_scj_def Let_def s get_fmupd_other)
qed

text \<open>
  The theorem at the day of the scenario, a dictionary without \<^verbatim>\<open>humeur\<close>, and the weight 1
  under the key \<^verbatim>\<open>humour\<close>: \<open>raw\<close> falls from 18.5 / 4 to 18.5 / 5.
\<close>

theorem compute_scj_unrecognized_key_witness:
  "validate_input scenario_day = Inr ()
   \<and> ''humour'' \<notin> {''concentration'', ''humeur'', ''sommeil'', ''stress''}
   \<and> ''humour'' \<notin> fmdom' weights_without_humeur \<and> (1::real) \<noteq> 0
   \<and> (\<exists>res res'. compute_scj scenario_day (Some weights_without_humeur) 2 True = Inr res
         \<and> compute_scj scenario_day (Some (fmupd ''humour'' 1 weights_without_humeur)) 2 True = Inr res'
         \<and> raw res = 37 / 8 \<and> raw res' = 37 / 10)"
proof -
  have h: "validate_input scenario_day = Inr ()" by (rule scenario_valid)
  have k: "''humour'' \<notin> {''concentration'', ''humeur'', ''sommeil'', ''stress''}
      \<and> ''humour'' \<notin> fmdom' weights_without_humeur \<and> (1::real) \<noteq> 0"
    by (simp add: without_humeur_dom)
  from compute_scj_unrecognized_key [OF h, of weights_without_humeur 2 True "''humour''" 1] k
  obtain res res' num where
    r: "compute_scj scenario_day (Some weights_without_humeur) 2 True = Inr res"
      "compute_scj scenario_day (Some (fmupd ''humour'' 1 weights_without_humeur)) 2 True = Inr res'"
    and q: "raw res = num / (if sum_abs_values weights_without_humeur = 0 then 1
                            else sum_abs_values weights_without_humeur)"
      "raw res' = num / (sum_abs_values weights_without_humeur + \<bar>1\<bar>)"
    and n: "raw res =
             ((case fmlookup weights_without_humeur ''concentration'' of None \<Rightarrow> 0 | Some x \<Rightarrow> x) * DailyInput.concentration scenario_day
              + (case fmlookup weights_without_humeur ''humeur'' of None \<Rightarrow> 0 | Some x \<Rightarrow> x) * DailyInput.humeur scenario_day
              + (case fmlookup weights_without_humeur ''sommeil'' of None \<Rightarrow> 0 | Some x \<Rightarrow> x) * DailyInput.sommeil scenario_day
              + (case fmlookup weights_without_humeur ''stress'' of None \<Rightarrow> 0 | Some x \<Rightarrow> x) * DailyInput.stress scenario_day)
             / (if (\<Sum>k \<in> fmdom' weights_without_humeur. \<bar>the (fmlookup weights_without_humeur k)\<bar>) = 0 then 1
                else (\<Sum>k \<in> fmdom' weights_without_humeur. \<bar>the (fmlookup weights_without_humeur k)\<bar>))"
    by auto
  have "num = 37 / 2 \<and> raw res = 37 / 8"
    using q(1) n
    by (simp add: without_humeur_sum without_humeur_dom) (simp add: weights_without_humeur_def scenario_day_def)
  then have "raw res = 37 / 8 \<and> raw res' = 37 / 10"
    using q(2) by (simp add: without_humeur_sum)
  with r h k show ?thesis by blast
qed

section \<open>Record repository: properties\<close>

subsection \<open>Keys and constraints\<close>

lemma fold_max_ge: "a \<le> fold (\<lambda>x m. max (id' x) m) rs a"
  by (induction rs arbitrary: a) (auto intro: order_trans [OF max.cobounded2])

lemma fold_max_mem: "r \<in> set rs \<Longrightarrow> id' r \<le> fold (\<lambda>x m. max (id' x) m) rs a"
proof (induction rs arbitrary: a)
  case Nil
  then show ?case by simp
next
  case (Cons x rs)
  show ?case
  proof (cases "r = x")
    case True
    have "id' x \<le> max (id' x) a" by simp
    also have "\<dots> \<le> fold (\<lambda>x m. max (id' x) m) rs (max (id' x) a)" by (rule fold_max_ge)
    finally show ?thesis using True by simp
  next
    case False
    with Cons.prems have "r \<in> set rs" by simp
    then show ?thesis using Cons.IH by simp
  qed
qed

lemma next_id_greater: "r \<in> set rows \<Longrightarrow> id' r < next_id rows"
proof (cases rows)
  case Nil
  then show "r \<in> set rows \<Longrightarrow> ?thesis" by simp
next
  case (Cons x xs)
  assume "r \<in> set rows"
  then consider "r = x" | "r \<in> set xs" using Cons by auto
  then show ?thesis
  proof cases
    case 1
    then show ?thesis using fold_max_ge [of "id' x" xs] Cons by (simp add: next_id_def)
  next
    case 2
    then show ?thesis using fold_max_mem [of r xs "id' x"] Cons by (simp add: next_id_def)
  qed
qed

lemma next_id_positive: "list_all (\<lambda>r. 0 < id' r) rows \<Longrightarrow> 0 < next_id rows"
proof (cases rows)
  case Nil
  then show ?thesis by (simp add: next_id_def)
next
  case (Cons x xs)
  assume "list_all (\<lambda>r. 0 < id' r) rows"
  then have "0 < id' x" using Cons by simp
  moreover have "id' x < next_id rows" using Cons by (intro next_id_greater) simp
  ultimately show ?thesis by linarith
qed

lemma select_by_key_None: "select_by_key uid dy s = None \<longleftrightarrow> \<not> list_ex (\<lambda>r. user_id r = uid \<and> date r = dy) s"
  by (auto simp: select_by_key_def find_None_iff list_ex_iff)

lemma select_by_key_Some:
  "select_by_key uid dy s = Some rec \<Longrightarrow> rec \<in> set s \<and> user_id rec = uid \<and> date rec = dy"
  by (auto simp: select_by_key_def find_Some_iff)

lemma select_by_key_unique:
  assumes "uq_user_day s" "rec \<in> set s" "user_id rec = uid" "date rec = dy"
  shows "select_by_key uid dy s = Some rec"
proof (cases "select_by_key uid dy s")
  case None
  with assms show ?thesis by (auto simp: select_by_key_None list_ex_iff)
next
  case (Some r)
  then have "r \<in> set s" "user_id r = uid" "date r = dy"
    by (auto dest: select_by_key_Some)
  moreover have "inj_on (\<lambda>r. (user_id r, date r)) (set s)"
    using assms(1) by (simp add: uq_user_day_def distinct_map)
  ultimately have "r = rec" using assms by (auto dest: inj_onD)
  with Some show ?thesis by simp
qed

lemma distinct_map_filter_le1:
  "distinct (map k xs) \<Longrightarrow> length (filter (\<lambda>x. k x = a) xs) \<le> 1"
  by (induction xs) (auto simp: filter_empty_conv image_iff)

lemma filter_key_single:
  assumes "uq_user_day s" "r \<in> set s" "user_id r = uid" "date r = dy"
  shows "filter (\<lambda>r. user_id r = uid \<and> date r = dy) s = [r]"
proof -
  let ?P = "\<lambda>r. user_id r = uid \<and> date r = dy"
  have "length (filter (\<lambda>x. (user_id x, date x) = (uid, dy)) s) \<le> 1"
    using assms(1) unfolding uq_user_day_def by (rule distinct_map_filter_le1)
  then have le: "length (filter ?P s) \<le> 1" by simp
  have mem: "r \<in> set (filter ?P s)" using assms by simp
  then obtain x xs where eq: "filter ?P s = x # xs" by (cases "filter ?P s") auto
  with le have "xs = []" by simp
  with eq mem show ?thesis by simp
qed

lemma table_ok_distinct: "table_ok s \<Longrightarrow> distinct s"
  by (simp add: table_ok_def distinct_map)

lemma normalize_DateArg: "normalize_date fromiso (DateArg dy) = Inr dy"
  by (simp add: normalize_date_def)


lemma week_sparse_ok: "table_ok week_sparse"
  by (simp add: table_ok_def uq_user_day_def week_sparse_def test_row_def)

lemma table_ok_keys: "table_ok s \<Longrightarrow> keys_ok s"
  by (simp add: table_ok_def keys_ok_def)

lemma keys_ok_distinct: "keys_ok s \<Longrightarrow> distinct s"
  by (simp add: keys_ok_def distinct_map)

lemma stored_keys: "keys_ok [stored_row]"
  by (simp add: keys_ok_def uq_user_day_def)

lemma id_of_row:
  assumes "distinct (map id' s)" "rec \<in> set s" "r \<in> set s"
  shows "id' r = id' rec \<longleftrightarrow> r = rec"
  using assms by (auto simp: distinct_map dest: inj_onD)

subsection \<open>Insertion, update and deletion of a row\<close>

lemma setattrs_keeps [simp]:
  "user_id (setattrs f rec) = user_id rec"
  "date (setattrs f rec) = date rec"
  by (simp_all add: setattrs_def)

lemma setattrs_id: "id' (setattrs f rec) = (case f_id f of None \<Rightarrow> id' rec | Some i \<Rightarrow> i)"
  by (simp add: setattrs_def)

lemma setattrs_supplied:
  "(\<forall>v. f_humeur f = Some v \<longrightarrow> humeur (setattrs f rec) = v)
   \<and> (\<forall>v. f_sommeil f = Some v \<longrightarrow> sommeil (setattrs f rec) = v)
   \<and> (\<forall>v. f_stress f = Some v \<longrightarrow> stress (setattrs f rec) = v)
   \<and> (\<forall>v. f_concentration f = Some v \<longrightarrow> concentration (setattrs f rec) = v)
   \<and> (\<forall>v. f_scj f = Some v \<longrightarrow> scj (setattrs f rec) = v)
   \<and> (\<forall>v. f_interpretation f = Some v \<longrightarrow> interpretation_text (setattrs f rec) = v)
   \<and> (\<forall>v. f_id f = Some v \<longrightarrow> id' (setattrs f rec) = v)
   \<and> (\<forall>v. f_created_at f = Some v \<longrightarrow> created_at (setattrs f rec) = v)"
  by (simp add: setattrs_def)

lemma setattrs_omitted:
  "(f_humeur f = None \<longrightarrow> humeur (setattrs f rec) = humeur rec)
   \<and> (f_sommeil f = None \<longrightarrow> sommeil (setattrs f rec) = sommeil rec)
   \<and> (f_stress f = None \<longrightarrow> stress (setattrs f rec) = stress rec)
   \<and> (f_concentration f = None \<longrightarrow> concentration (setattrs f rec) = concentration rec)
   \<and> (f_scj f = None \<longrightarrow> scj (setattrs f rec) = scj rec)
   \<and> (f_interpretation f = None \<longrightarrow> interpretation_text (setattrs f rec) = interpretation_text rec)
   \<and> (f_id f = None \<longrightarrow> id' (setattrs f rec) = id' rec)
   \<and> (f_created_at f = None \<longrightarrow> created_at (setattrs f rec) = created_at rec)"
  by (simp add: setattrs_def)

lemma setattrs_twice: "setattrs f (setattrs f rec) = setattrs f rec"
  by (simp add: setattrs_def split: option.splits)

lemma update_row_nth:
  assumes "distinct (map id' s)" "i < length s"
  shows "update_row (id' (s ! i)) rec' s = s[i := rec']"
proof (rule nth_equalityI)
  show "length (update_row (id' (s ! i)) rec' s) = length (s[i := rec'])"
    by (simp add: update_row_def)
next
  fix j assume j: "j < length (update_row (id' (s ! i)) rec' s)"
  then have jl: "j < length s" by (simp add: update_row_def)
  have "id' (s ! j) = id' (s ! i) \<longleftrightarrow> j = i"
    using assms jl nth_eq_iff_index_eq [of "map id' s" j i] by auto
  then show "update_row (id' (s ! i)) rec' s ! j = s[i := rec'] ! j"
    using jl assms by (auto simp: update_row_def nth_list_update)
qed

lemma update_row_mem: "rec \<in> set s \<Longrightarrow> rec' \<in> set (update_row (id' rec) rec' s)"
  by (force simp: update_row_def)

lemma update_row_keys:
  assumes "distinct (map id' s)" "rec \<in> set s"
    "user_id rec' = user_id rec" "date rec' = date rec"
  shows "map (\<lambda>r. (user_id r, date r)) (update_row (id' rec) rec' s)
       = map (\<lambda>r. (user_id r, date r)) s"
  using assms id_of_row [OF assms(1,2)] by (auto simp: update_row_def)

lemma update_row_ids:
  assumes "distinct (map id' s)" "rec \<in> set s"
    "id' rec' = id' rec \<or> id' rec' \<notin> id' ` set s"
  shows "distinct (map id' (update_row (id' rec) rec' s))"
proof -
  from assms(2) obtain i where i: "i < length s" "s ! i = rec"
    by (auto simp: in_set_conv_nth)
  have "update_row (id' rec) rec' s = s[i := rec']"
    using update_row_nth [OF assms(1) i(1), of rec'] i(2) by simp
  then have "map id' (update_row (id' rec) rec' s) = (map id' s)[i := id' rec']"
    by (simp add: map_update)
  moreover have "id' rec' \<notin> set (map id' s) - {map id' s ! i}"
    using assms(3) i by auto
  ultimately show ?thesis
    using assms(1) by (simp add: distinct_list_update)
qed

lemma update_row_frame:
  assumes "distinct (map id' s)" "rec \<in> set s"
    "user_id rec = uid" "date rec = dy" "user_id rec' = uid" "date rec' = dy"
  shows "filter (\<lambda>r. \<not> (user_id r = uid \<and> date r = dy)) (update_row (id' rec) rec' s)
       = filter (\<lambda>r. \<not> (user_id r = uid \<and> date r = dy)) s"
proof -
  note * = id_of_row [OF assms(1,2)]
  have "filter (\<lambda>r. \<not> (user_id r = uid \<and> date r = dy)) (map (\<lambda>r. if id' r = id' rec then rec' else r) xs)
      = filter (\<lambda>r. \<not> (user_id r = uid \<and> date r = dy)) xs" if "set xs \<subseteq> set s" for xs
    using that by (induction xs) (auto simp: * assms(3-6))
  then show ?thesis by (simp add: update_row_def)
qed

lemma flush_update_Inr:
  assumes "distinct (map id' s)" "rec \<in> set s"
  shows "flush_update rec rec' s = Inr s' \<longleftrightarrow>
     (id' rec' = id' rec \<or> id' rec' \<notin> id' ` set s) \<and> s' = update_row (id' rec) rec' s"
  using assms(2) by (auto simp: flush_update_def list_ex_iff image_iff; metis)

lemma flush_update_Inl:
  assumes "rec \<in> set s"
  shows "flush_update rec rec' s = Inl e \<longleftrightarrow>
     \<not> (id' rec' = id' rec \<or> id' rec' \<notin> id' ` set s) \<and> e = IntegrityError PrimaryKey"
  using assms by (auto simp: flush_update_def list_ex_iff image_iff; metis)

lemma keys_ok_update:
  assumes "keys_ok s" "rec \<in> set s" "user_id rec' = user_id rec" "date rec' = date rec"
    "id' rec' = id' rec \<or> id' rec' \<notin> id' ` set s"
  shows "keys_ok (update_row (id' rec) rec' s)"
  using assms update_row_ids [of s rec rec'] update_row_keys [of s rec rec']
  by (simp add: keys_ok_def uq_user_day_def)

lemma keys_ok_delete: "keys_ok s \<Longrightarrow> keys_ok (delete_row rec s)"
  by (auto simp: keys_ok_def uq_user_day_def delete_row_def distinct_map_filter)

lemma insert_row_Inr:
  assumes "insert_row now uid dy f s = Inr (r, s')"
  shows "s' = s @ [r] \<and> user_id r = uid \<and> date r = dy
     \<and> id' r = (case f_id f of None \<Rightarrow> next_id s | Some i \<Rightarrow> i)
     \<and> id' r \<notin> id' ` set s
     \<and> \<not> list_ex (\<lambda>r. user_id r = uid \<and> date r = dy) s
     \<and> f_humeur f = Some (humeur r) \<and> f_sommeil f = Some (sommeil r) \<and> f_stress f = Some (stress r)
     \<and> f_concentration f = Some (concentration r) \<and> f_scj f = Some (scj r)
     \<and> interpretation_text r = (case f_interpretation f of None \<Rightarrow> None | Some v \<Rightarrow> v)
     \<and> created_at r = (case f_created_at f of None \<Rightarrow> now | Some t \<Rightarrow> t)"
  using assms by (auto simp: insert_row_def Let_def list_ex_iff split: option.splits if_splits)

lemma next_id_fresh: "next_id s \<notin> id' ` set s"
  using next_id_greater [of _ s] by force

lemma insert_row_complete:
  assumes "f_humeur f = Some h" "f_sommeil f = Some so" "f_stress f = Some st"
    "f_concentration f = Some c" "f_scj f = Some sc"
    "\<forall>i. f_id f = Some i \<longrightarrow> i \<notin> id' ` set s"
    "\<not> list_ex (\<lambda>r. user_id r = uid \<and> date r = dy) s"
  shows "insert_row now uid dy f s =
     (let r = \<lparr>id' = (case f_id f of None \<Rightarrow> next_id s | Some i \<Rightarrow> i),
                user_id = uid, date = dy,
                humeur = h, sommeil = so, stress = st, concentration = c, scj = sc,
                interpretation_text = (case f_interpretation f of None \<Rightarrow> None | Some v \<Rightarrow> v),
                created_at = (case f_created_at f of None \<Rightarrow> now | Some t \<Rightarrow> t)\<rparr>
      in Inr (r, s @ [r]))"
proof -
  have "(case f_id f of None \<Rightarrow> next_id s | Some i \<Rightarrow> i) \<notin> id' ` set s"
    using assms(6) next_id_fresh [of s] by (simp split: option.splits)
  then show ?thesis
    using assms(1-5,7) by (auto simp: insert_row_def Let_def list_ex_iff image_iff)
qed

lemma keys_ok_insert:
  assumes "keys_ok s" "insert_row now uid dy f s = Inr (r, s')"
  shows "keys_ok s'"
proof -
  from insert_row_Inr [OF assms(2)]
  have s': "s' = s @ [r]" and key: "user_id r = uid" "date r = dy"
    and rid: "id' r \<notin> id' ` set s"
    and fresh: "\<not> list_ex (\<lambda>r. user_id r = uid \<and> date r = dy) s"
    by blast+
  have "(user_id r, date r) \<notin> (\<lambda>r. (user_id r, date r)) ` set s"
    using fresh key by (auto simp: list_ex_iff)
  then show ?thesis
    using assms(1) s' rid by (simp add: keys_ok_def uq_user_day_def)
qed

subsection \<open>The methods keep the constraints\<close>

lemma keys_ok_add: "keys_ok s \<Longrightarrow> keys_ok (snd (add fromiso s now uid d f))"
  by (auto simp: add_def Let_def split: sum.splits option.splits dest: keys_ok_insert)

lemma keys_ok_upsert:
  assumes "keys_ok s"
  shows "keys_ok (snd (upsert fromiso s now uid d f))"
proof (cases "normalize_date fromiso d")
  case (Inl e)
  then show ?thesis using assms by (simp add: upsert_def)
next
  case (Inr dy)
  show ?thesis
  proof (cases "select_by_key uid dy s")
    case None
    then show ?thesis
      using assms Inr by (auto simp: upsert_def split: sum.splits dest: keys_ok_insert)
  next
    case (Some rec)
    then have rec: "rec \<in> set s" by (auto dest: select_by_key_Some)
    have d: "distinct (map id' s)" using assms by (simp add: keys_ok_def)
    show ?thesis
    proof (cases "flush_update rec (setattrs f rec) s")
      case (Inl e)
      then show ?thesis using assms Inr Some by (simp add: upsert_def Let_def)
    next
      case (Inr s')
      then have "(id' (setattrs f rec) = id' rec \<or> id' (setattrs f rec) \<notin> id' ` set s)"
          and s': "s' = update_row (id' rec) (setattrs f rec) s"
        using flush_update_Inr [OF d rec] by simp_all
      then have "keys_ok s'"
        using keys_ok_update [OF assms rec, of "setattrs f rec"] by simp
      then show ?thesis
        using \<open>normalize_date fromiso d = Inr dy\<close> Some Inr by (simp add: upsert_def Let_def)
    qed
  qed
qed

lemma keys_ok_delete_call: "keys_ok s \<Longrightarrow> keys_ok (snd (delete fromiso s uid d))"
  by (auto simp: delete_def split: sum.splits option.splits intro: keys_ok_delete)

lemma keys_ok_step: "keys_ok s \<Longrightarrow> keys_ok (step fromiso s c)"
  by (cases c) (simp_all add: keys_ok_add keys_ok_upsert keys_ok_delete_call)

lemma keys_ok_run: "keys_ok s \<Longrightarrow> keys_ok (run fromiso s calls)"
  unfolding run_def by (induction calls arbitrary: s) (simp_all add: keys_ok_step)

subsection \<open>Upsert on an existing and on a new pair\<close>

lemma upsert_existing:
  assumes "keys_ok s" "normalize_date fromiso d = Inr dy"
    "rec \<in> set s" "user_id rec = uid" "date rec = dy"
  shows "upsert fromiso s now uid d f =
     (if id' (setattrs f rec) = id' rec \<or> id' (setattrs f rec) \<notin> id' ` set s
      then (Inr (setattrs f rec), update_row (id' rec) (setattrs f rec) s)
      else (Inl (IntegrityError PrimaryKey), s))"
proof -
  have sel: "select_by_key uid dy s = Some rec"
    using assms by (intro select_by_key_unique) (simp_all add: keys_ok_def)
  have d: "distinct (map id' s)" using assms(1) by (simp add: keys_ok_def)
  show ?thesis
  proof (cases "flush_update rec (setattrs f rec) s")
    case (Inl e)
    then show ?thesis
      using sel assms(2) flush_update_Inl [OF assms(3), of "setattrs f rec" e]
      by (simp add: upsert_def Let_def)
  next
    case (Inr s')
    then show ?thesis
      using sel assms(2) flush_update_Inr [OF d assms(3), of "setattrs f rec" s']
      by (simp add: upsert_def Let_def)
  qed
qed

lemma id_keyword_free:
  "(\<forall>i. f_id f = Some i \<longrightarrow> i = id' rec \<or> i \<notin> id' ` set s) \<longleftrightarrow>
   (id' (setattrs f rec) = id' rec \<or> id' (setattrs f rec) \<notin> id' ` set s)"
  by (auto simp: setattrs_id split: option.splits)

lemma upsert_new:
  assumes "normalize_date fromiso d = Inr dy"
    "\<not> list_ex (\<lambda>r. user_id r = uid \<and> date r = dy) s"
  shows "upsert fromiso s now uid d f =
    (case insert_row now uid dy f s of Inl e \<Rightarrow> (Inl e, s) | Inr (r, s') \<Rightarrow> (Inr r, s'))"
  using assms by (simp add: upsert_def select_by_key_None [symmetric])

lemma upsert_existing_in_place:
  assumes "keys_ok s" "normalize_date fromiso d = Inr dy"
    "rec \<in> set s" "user_id rec = uid" "date rec = dy"
    "\<forall>i. f_id f = Some i \<longrightarrow> i = id' rec \<or> i \<notin> id' ` set s"
  shows "\<exists>i. i < length s \<and> s ! i = rec
      \<and> upsert fromiso s now uid d f = (Inr (setattrs f rec), s[i := setattrs f rec])"
proof -
  from assms(3) obtain i where i: "i < length s" "s ! i = rec"
    by (auto simp: in_set_conv_nth)
  have "distinct (map id' s)" using assms(1) by (simp add: keys_ok_def)
  then have "update_row (id' rec) (setattrs f rec) s = s[i := setattrs f rec]"
    using update_row_nth [of s i "setattrs f rec"] i by simp
  moreover have "id' (setattrs f rec) = id' rec \<or> id' (setattrs f rec) \<notin> id' ` set s"
    using assms(6) by (simp only: id_keyword_free)
  ultimately show ?thesis
    using upsert_existing [OF assms(1-5), of now f] i by auto
qed

lemma upsert_result:
  assumes "normalize_date fromiso d = Inr dy"
    and "upsert fromiso s now uid d f = (Inr r1, s1)"
  shows "r1 \<in> set s1 \<and> user_id r1 = uid \<and> date r1 = dy \<and> setattrs f r1 = r1"
proof (cases "select_by_key uid dy s")
  case None
  then obtain s' where ins: "insert_row now uid dy f s = Inr (r1, s1)"
    using assms by (auto simp: upsert_def split: sum.splits)
  from insert_row_Inr [OF this]
  have "s1 = s @ [r1]" "user_id r1 = uid" "date r1 = dy"
    "id' r1 = (case f_id f of None \<Rightarrow> next_id s | Some i \<Rightarrow> i)"
    "f_humeur f = Some (humeur r1)" "f_sommeil f = Some (sommeil r1)" "f_stress f = Some (stress r1)"
    "f_concentration f = Some (concentration r1)" "f_scj f = Some (scj r1)"
    "interpretation_text r1 = (case f_interpretation f of None \<Rightarrow> None | Some v \<Rightarrow> v)"
    "created_at r1 = (case f_created_at f of None \<Rightarrow> now | Some t \<Rightarrow> t)"
    by blast+
  then show ?thesis
    by (auto simp: setattrs_def split: option.splits)
next
  case (Some rec)
  then have rec: "rec \<in> set s" "user_id rec = uid" "date rec = dy"
    by (auto dest: select_by_key_Some)
  from Some assms have "r1 = setattrs f rec \<and> s1 = update_row (id' rec) (setattrs f rec) s"
    by (auto simp: upsert_def Let_def flush_update_def split: sum.splits if_splits)
  then show ?thesis
    using rec update_row_mem [OF rec(1), of "setattrs f rec"] by (simp add: setattrs_twice)
qed

lemma upsert_twice:
  assumes ok: "keys_ok s" and nd: "normalize_date fromiso d = Inr dy"
    and up1: "upsert fromiso s now uid d f = (Inr r1, s1)"
  shows "\<exists>r2 s2. upsert fromiso s1 now2 uid d f = (Inr r2, s2)
     \<and> r2 = r1 \<and> filter (\<lambda>r. user_id r = uid \<and> date r = dy) s2 = [r2]"
proof -
  have ok1: "keys_ok s1"
    using keys_ok_upsert [OF ok, of fromiso now uid d f] up1 by simp
  from upsert_result [OF nd up1]
  have r1s: "r1 \<in> set s1" and r1u: "user_id r1 = uid" and r1d: "date r1 = dy"
    and fixed: "setattrs f r1 = r1"
    by simp_all
  let ?s = "update_row (id' r1) r1 s1"
  have up2: "upsert fromiso s1 now2 uid d f = (Inr r1, ?s)"
    using upsert_existing [OF ok1 nd r1s r1u r1d, of now2 f] by (simp add: fixed)
  have ok2: "keys_ok ?s"
    using ok1 r1s by (rule keys_ok_update) simp_all
  have mem: "r1 \<in> set ?s"
    using r1s by (rule update_row_mem)
  have "uq_user_day ?s" using ok2 by (simp add: keys_ok_def)
  then have "filter (\<lambda>r. user_id r = uid \<and> date r = dy) ?s = [r1]"
    using mem by (rule filter_key_single) (simp_all add: r1u r1d)
  then show ?thesis using up2 by simp
qed

text \<open>
  Claim C2. From a table that satisfies the constraints of the database (the empty table
  does), after every finite sequence of calls of \<open>add\<close>, \<open>upsert\<close> and \<open>delete\<close>, with any
  arguments, at most one row has a given pair of user and day.
\<close>

theorem one_record_per_user_day:
  assumes "table_ok s"
  shows "length (filter (\<lambda>r. user_id r = uid \<and> date r = dy) (run fromiso s calls)) \<le> 1"
proof -
  have "keys_ok s" using assms by (rule table_ok_keys)
  then have "keys_ok (run fromiso s calls)"
    by (rule keys_ok_run)
  then have "distinct (map (\<lambda>r. (user_id r, date r)) (run fromiso s calls))"
    by (simp add: keys_ok_def uq_user_day_def)
  then have "length (filter (\<lambda>x. (user_id x, date x) = (uid, dy)) (run fromiso s calls)) \<le> 1"
    by (rule distinct_map_filter_le1)
  then show ?thesis by simp
qed

text \<open>The theorem at the empty table and five calls for one pair.\<close>

theorem one_record_per_user_day_witness:
  "table_ok []
   \<and> run no_parser []
        [Add 0 1 (DateArg 739313) first_entry, Add 1 1 (StrArg ''2025-03-03'') first_entry,
         Upsert 2 1 (DatetimeArg 739313 36000) second_entry, Delete 1 (DateArg 739313),
         Upsert 3 1 (DateArg 739313) first_entry]
       = [\<lparr>id' = 1, user_id = 1, date = 739313, humeur = 5, sommeil = 7, stress = 3,
            concentration = 6, scj = 24 / 5, interpretation_text = Some ''OK'', created_at = 3\<rparr>]
   \<and> length (filter (\<lambda>r. user_id r = 1 \<and> date r = 739313)
        (run no_parser []
           [Add 0 1 (DateArg 739313) first_entry, Add 1 1 (StrArg ''2025-03-03'') first_entry,
            Upsert 2 1 (DatetimeArg 739313 36000) second_entry, Delete 1 (DateArg 739313),
            Upsert 3 1 (DateArg 739313) first_entry])) \<le> 1"
proof (intro conjI)
  show h: "table_ok []" by (simp add: table_ok_def uq_user_day_def)
  show "run no_parser []
        [Add 0 1 (DateArg 739313) first_entry, Add 1 1 (StrArg ''2025-03-03'') first_entry,
         Upsert 2 1 (DatetimeArg 739313 36000) second_entry, Delete 1 (DateArg 739313),
         Upsert 3 1 (DateArg 739313) first_entry]
       = [\<lparr>id' = 1, user_id = 1, date = 739313, humeur = 5, sommeil = 7, stress = 3,
            concentration = 6, scj = 24 / 5, interpretation_text = Some ''OK'', created_at = 3\<rparr>]"
    by (simp add: run_def add_def upsert_def delete_def normalize_date_def no_parser_def
        select_by_key_def insert_row_def next_id_def setattrs_def update_row_def flush_update_def
        delete_row_def first_entry_def second_entry_def Let_def)
  show "length (filter (\<lambda>r. user_id r = 1 \<and> date r = 739313)
        (run no_parser []
           [Add 0 1 (DateArg 739313) first_entry, Add 1 1 (StrArg ''2025-03-03'') first_entry,
            Upsert 2 1 (DatetimeArg 739313 36000) second_entry, Delete 1 (DateArg 739313),
            Upsert 3 1 (DateArg 739313) first_entry])) \<le> 1"
    using h by (rule one_record_per_user_day)
qed



text \<open>
  Claim C3, amended. If a row exists for the pair of user and day, \<open>upsert\<close> overwrites in
  place every data column that the call passes and leaves every data column that the call
  does not pass as it is stored: not all mutable columns are overwritten, a call without
  the text keeps the text. The \<open>id\<close> of the row is kept when the call passes no \<^verbatim>\<open>id\<close>.
  Otherwise, when the call passes the four metrics and the score, it creates a new row for
  the pair. Hence two calls with the same arguments that pass the four metrics and the
  score leave exactly one row for the pair, holding the values passed, with the same \<open>id\<close>
  after both calls. An \<^verbatim>\<open>id\<close> that the call passes is taken to be the \<open>id\<close> of no other row.
\<close>

theorem upsert_overwrites_supplied_fields:
  assumes "keys_ok s" and "normalize_date fromiso d = Inr dy"
  shows "(\<forall>rec \<in> set s. user_id rec = uid \<and> date rec = dy
            \<and> (\<forall>i. f_id f = Some i \<longrightarrow> i = id' rec \<or> i \<notin> id' ` set s) \<longrightarrow>
            (\<exists>r' i. upsert fromiso s now uid d f = (Inr r', s[i := r'])
               \<and> i < length s \<and> s ! i = rec
               \<and> (f_id f = None \<longrightarrow> id' r' = id' rec)
               \<and> (\<forall>v. f_humeur f = Some v \<longrightarrow> humeur r' = v)
               \<and> (\<forall>v. f_sommeil f = Some v \<longrightarrow> sommeil r' = v)
               \<and> (\<forall>v. f_stress f = Some v \<longrightarrow> stress r' = v)
               \<and> (\<forall>v. f_concentration f = Some v \<longrightarrow> concentration r' = v)
               \<and> (\<forall>v. f_scj f = Some v \<longrightarrow> scj r' = v)
               \<and> (\<forall>v. f_interpretation f = Some v \<longrightarrow> interpretation_text r' = v)
               \<and> (f_humeur f = None \<longrightarrow> humeur r' = humeur rec)
               \<and> (f_sommeil f = None \<longrightarrow> sommeil r' = sommeil rec)
               \<and> (f_stress f = None \<longrightarrow> stress r' = stress rec)
               \<and> (f_concentration f = None \<longrightarrow> concentration r' = concentration rec)
               \<and> (f_scj f = None \<longrightarrow> scj r' = scj rec)
               \<and> (f_interpretation f = None \<longrightarrow> interpretation_text r' = interpretation_text rec)))
       \<and> (f_humeur f = Some h \<and> f_sommeil f = Some so \<and> f_stress f = Some st
            \<and> f_concentration f = Some c \<and> f_scj f = Some sc
            \<and> (\<forall>i. f_id f = Some i \<longrightarrow> i \<notin> id' ` set s) \<longrightarrow>
            (\<not> list_ex (\<lambda>r. user_id r = uid \<and> date r = dy) s \<longrightarrow>
               (\<exists>r. upsert fromiso s now uid d f = (Inr r, s @ [r])
                  \<and> user_id r = uid \<and> date r = dy \<and> id' r \<notin> id' ` set s))
            \<and> (\<exists>r1 s1 r2 s2. upsert fromiso s now uid d f = (Inr r1, s1)
                  \<and> upsert fromiso s1 now2 uid d f = (Inr r2, s2)
                  \<and> id' r2 = id' r1
                  \<and> filter (\<lambda>r. user_id r = uid \<and> date r = dy) s2 = [r2]
                  \<and> humeur r2 = h \<and> sommeil r2 = so \<and> stress r2 = st
                  \<and> concentration r2 = c \<and> scj r2 = sc
                  \<and> (\<forall>v. f_interpretation f = Some v \<longrightarrow> interpretation_text r2 = v)))"
proof (intro conjI ballI impI)
  fix rec assume rec: "rec \<in> set s"
    and k: "user_id rec = uid \<and> date rec = dy
            \<and> (\<forall>i. f_id f = Some i \<longrightarrow> i = id' rec \<or> i \<notin> id' ` set s)"
  from k have k1: "user_id rec = uid" and k2: "date rec = dy"
    and k3: "\<forall>i. f_id f = Some i \<longrightarrow> i = id' rec \<or> i \<notin> id' ` set s"
    by simp_all
  from upsert_existing_in_place [OF assms rec k1 k2 k3, of now]
  obtain i where i: "i < length s" "s ! i = rec"
    "upsert fromiso s now uid d f = (Inr (setattrs f rec), s[i := setattrs f rec])"
    by auto
  show "\<exists>r' i. upsert fromiso s now uid d f = (Inr r', s[i := r'])
               \<and> i < length s \<and> s ! i = rec
               \<and> (f_id f = None \<longrightarrow> id' r' = id' rec)
               \<and> (\<forall>v. f_humeur f = Some v \<longrightarrow> humeur r' = v)
               \<and> (\<forall>v. f_sommeil f = Some v \<longrightarrow> sommeil r' = v)
               \<and> (\<forall>v. f_stress f = Some v \<longrightarrow> stress r' = v)
               \<and> (\<forall>v. f_concentration f = Some v \<longrightarrow> concentration r' = v)
               \<and> (\<forall>v. f_scj f = Some v \<longrightarrow> scj r' = v)
               \<and> (\<forall>v. f_interpretation f = Some v \<longrightarrow> interpretation_text r' = v)
               \<and> (f_humeur f = None \<longrightarrow> humeur r' = humeur rec)
               \<and> (f_sommeil f = None \<longrightarrow> sommeil r' = sommeil rec)
               \<and> (f_stress f = None \<longrightarrow> stress r' = stress rec)
               \<and> (f_concentration f = None \<longrightarrow> concentration r' = concentration rec)
               \<and> (f_scj f = None \<longrightarrow> scj r' = scj rec)
               \<and> (f_interpretation f = None \<longrightarrow> interpretation_text r' = interpretation_text rec)"
    using i setattrs_supplied [of f rec] setattrs_omitted [of f rec]
    by (intro exI [of _ "setattrs f rec"] exI [of _ i]) simp
next
  assume c: "f_humeur f = Some h \<and> f_sommeil f = Some so \<and> f_stress f = Some st
            \<and> f_concentration f = Some c \<and> f_scj f = Some sc
            \<and> (\<forall>i. f_id f = Some i \<longrightarrow> i \<notin> id' ` set s)"
    and new: "\<not> list_ex (\<lambda>r. user_id r = uid \<and> date r = dy) s"
  have "(case f_id f of None \<Rightarrow> next_id s | Some i \<Rightarrow> i) \<notin> id' ` set s"
    using c next_id_fresh [of s] by (simp split: option.splits)
  then show "\<exists>r. upsert fromiso s now uid d f = (Inr r, s @ [r])
                  \<and> user_id r = uid \<and> date r = dy \<and> id' r \<notin> id' ` set s"
    using c new assms(2) by (simp add: upsert_new insert_row_complete Let_def)
next
  assume c: "f_humeur f = Some h \<and> f_sommeil f = Some so \<and> f_stress f = Some st
            \<and> f_concentration f = Some c \<and> f_scj f = Some sc
            \<and> (\<forall>i. f_id f = Some i \<longrightarrow> i \<notin> id' ` set s)"
  have "\<exists>r1 s1. upsert fromiso s now uid d f = (Inr r1, s1)"
  proof (cases "select_by_key uid dy s")
    case None
    then have "\<not> list_ex (\<lambda>r. user_id r = uid \<and> date r = dy) s"
      by (simp add: select_by_key_None)
    then show ?thesis
      using c assms(2) by (simp add: upsert_new insert_row_complete Let_def)
  next
    case (Some rec)
    then have rec: "rec \<in> set s" "user_id rec = uid" "date rec = dy"
      by (auto dest: select_by_key_Some)
    have "\<forall>i. f_id f = Some i \<longrightarrow> i = id' rec \<or> i \<notin> id' ` set s"
      using c by blast
    from upsert_existing_in_place [OF assms rec this, of now]
    show ?thesis by blast
  qed
  then obtain r1 s1 where up1: "upsert fromiso s now uid d f = (Inr r1, s1)" by blast
  from upsert_twice [OF assms up1, of now2]
  obtain r2 s2 where up2: "upsert fromiso s1 now2 uid d f = (Inr r2, s2)"
    and r2: "r2 = r1" "filter (\<lambda>r. user_id r = uid \<and> date r = dy) s2 = [r2]"
    by blast
  from upsert_result [OF assms(2) up1] have "setattrs f r1 = r1" by simp
  then have "humeur r1 = h \<and> sommeil r1 = so \<and> stress r1 = st \<and> concentration r1 = c \<and> scj r1 = sc
      \<and> (\<forall>v. f_interpretation f = Some v \<longrightarrow> interpretation_text r1 = v)"
    using c setattrs_supplied [of f r1] by simp
  then show "\<exists>r1 s1 r2 s2. upsert fromiso s now uid d f = (Inr r1, s1)
                  \<and> upsert fromiso s1 now2 uid d f = (Inr r2, s2)
                  \<and> id' r2 = id' r1
                  \<and> filter (\<lambda>r. user_id r = uid \<and> date r = dy) s2 = [r2]
                  \<and> humeur r2 = h \<and> sommeil r2 = so \<and> stress r2 = st
                  \<and> concentration r2 = c \<and> scj r2 = sc
                  \<and> (\<forall>v. f_interpretation f = Some v \<longrightarrow> interpretation_text r2 = v)"
    using up1 up2 r2 by blast
qed

text \<open>The theorem at a table of one row and a call for the pair of that row.\<close>

theorem upsert_overwrites_supplied_fields_witness:
  "keys_ok [stored_row] \<and> normalize_date no_parser (DateArg 739313) = Inr 739313
   \<and> stored_row \<in> set [stored_row] \<and> user_id stored_row = 1 \<and> date stored_row = 739313
   \<and> f_id second_entry = None \<and> f_interpretation second_entry = None
   \<and> f_humeur second_entry = Some 6 \<and> f_sommeil second_entry = Some 7 \<and> f_stress second_entry = Some 2
   \<and> f_concentration second_entry = Some 7 \<and> f_scj second_entry = Some (32 / 5)
   \<and> (\<exists>r' i. upsert no_parser [stored_row] 5 1 (DateArg 739313) second_entry = (Inr r', [stored_row][i := r'])
         \<and> id' r' = id' stored_row \<and> scj r' = 32 / 5
         \<and> interpretation_text r' = interpretation_text stored_row)
   \<and> (\<exists>r1 s1 r2 s2. upsert no_parser [stored_row] 5 1 (DateArg 739313) second_entry = (Inr r1, s1)
         \<and> upsert no_parser s1 6 1 (DateArg 739313) second_entry = (Inr r2, s2)
         \<and> id' r2 = id' r1 \<and> filter (\<lambda>r. user_id r = 1 \<and> date r = 739313) s2 = [r2] \<and> scj r2 = 32 / 5)"
proof -
  have h1: "keys_ok [stored_row]" by (rule stored_keys)
  have h2: "normalize_date no_parser (DateArg 739313) = Inr 739313" by (rule normalize_DateArg)
  have h3: "stored_row \<in> set [stored_row] \<and> user_id stored_row = 1 \<and> date stored_row = 739313"
    by (simp add: stored_row_def)
  have h4: "f_humeur second_entry = Some 6 \<and> f_sommeil second_entry = Some 7 \<and> f_stress second_entry = Some 2
      \<and> f_concentration second_entry = Some 7 \<and> f_scj second_entry = Some (32 / 5)"
    by (simp add: second_entry_def)
  have h5: "f_id second_entry = None \<and> f_interpretation second_entry = None"
    by (simp add: second_entry_def)
  have h6: "\<forall>i. f_id second_entry = Some i \<longrightarrow> i = id' stored_row \<or> i \<notin> id' ` set [stored_row]"
    by (simp add: second_entry_def)
  have h7: "\<forall>i. f_id second_entry = Some i \<longrightarrow> i \<notin> id' ` set [stored_row]"
    by (simp add: second_entry_def)
  note t = upsert_overwrites_supplied_fields [OF h1 h2, where uid = 1 and now = 5 and f = second_entry
      and h = 6 and so = 7 and st = 2 and c = 7 and sc = "32 / 5" and ?now2.0 = 6]
  from h3 h6 have k: "user_id stored_row = 1 \<and> date stored_row = 739313
      \<and> (\<forall>i. f_id second_entry = Some i \<longrightarrow> i = id' stored_row \<or> i \<notin> id' ` set [stored_row])"
    by simp
  from h3 have m: "stored_row \<in> set [stored_row]" by simp
  from mp [OF bspec [OF conjunct1 [OF t] m] k]
  obtain r' i where r: "upsert no_parser [stored_row] 5 1 (DateArg 739313) second_entry = (Inr r', [stored_row][i := r'])"
    "f_id second_entry = None \<longrightarrow> id' r' = id' stored_row"
    "\<forall>v. f_scj second_entry = Some v \<longrightarrow> scj r' = v"
    "f_interpretation second_entry = None \<longrightarrow> interpretation_text r' = interpretation_text stored_row"
    by (elim exE conjE) (rule that)
  from r(2) h5 have "id' r' = id' stored_row" by metis
  moreover from r(3) h4 have "scj r' = 32 / 5" by metis
  moreover from r(4) h5 have "interpretation_text r' = interpretation_text stored_row" by metis
  ultimately have "id' r' = id' stored_row \<and> scj r' = 32 / 5
      \<and> interpretation_text r' = interpretation_text stored_row"
    by (intro conjI)
  with r(1)
  have a: "\<exists>r' i. upsert no_parser [stored_row] 5 1 (DateArg 739313) second_entry = (Inr r', [stored_row][i := r'])
         \<and> id' r' = id' stored_row \<and> scj r' = 32 / 5
         \<and> interpretation_text r' = interpretation_text stored_row"
    by (intro exI [of _ r'] exI [of _ i]) simp
  from h4 h7 have c: "f_humeur second_entry = Some 6 \<and> f_sommeil second_entry = Some 7
      \<and> f_stress second_entry = Some 2 \<and> f_concentration second_entry = Some 7
      \<and> f_scj second_entry = Some (32 / 5)
      \<and> (\<forall>i. f_id second_entry = Some i \<longrightarrow> i \<notin> id' ` set [stored_row])"
    by simp
  from conjunct2 [OF mp [OF conjunct2 [OF t] c]]
  obtain r1 s1 r2 s2 where q: "upsert no_parser [stored_row] 5 1 (DateArg 739313) second_entry = (Inr r1, s1)"
    "upsert no_parser s1 6 1 (DateArg 739313) second_entry = (Inr r2, s2)"
    "id' r2 = id' r1" "filter (\<lambda>r. user_id r = 1 \<and> date r = 739313) s2 = [r2]"
    "scj r2 = 32 / 5"
    by (elim exE conjE) (rule that)
  then have b: "\<exists>r1 s1 r2 s2. upsert no_parser [stored_row] 5 1 (DateArg 739313) second_entry = (Inr r1, s1)
         \<and> upsert no_parser s1 6 1 (DateArg 739313) second_entry = (Inr r2, s2)
         \<and> id' r2 = id' r1 \<and> filter (\<lambda>r. user_id r = 1 \<and> date r = 739313) s2 = [r2] \<and> scj r2 = 32 / 5"
    by (intro exI [of _ r1] exI [of _ s1] exI [of _ r2] exI [of _ s2]) simp
  from h1 h2 h3 h4 h5 a b show ?thesis by (intro conjI) simp_all
qed

text \<open>
  Not every mutable column is overwritten: a call that leaves \<^verbatim>\<open>interpretation\<close> out keeps
  the text of the stored row.
\<close>

theorem upsert_keeps_unsupplied_text:
  "upsert no_parser [stored_row] 5 1 (DateArg 739313) second_entry
     = (Inr (stored_row\<lparr>humeur := 6, stress := 2, concentration := 7, scj := 32 / 5\<rparr>),
        [stored_row\<lparr>humeur := 6, stress := 2, concentration := 7, scj := 32 / 5\<rparr>])
   \<and> f_interpretation second_entry = None
   \<and> interpretation_text (stored_row\<lparr>humeur := 6, stress := 2, concentration := 7, scj := 32 / 5\<rparr>)
       = Some ''OK''"
  by (simp add: upsert_def normalize_date_def select_by_key_def stored_row_def second_entry_def
      setattrs_def update_row_def flush_update_def Let_def)

subsection \<open>Range queries and the weekly mean\<close>

lemma mean_of_distinct:
  assumes "distinct xs"
  shows "sum_list (map g xs) / of_nat (length xs) = (\<Sum>r \<in> set xs. g r) / of_nat (card (set xs))"
  using assms by (simp add: sum_list_distinct_conv_sum_set distinct_card)

lemma end_or_today_cases:
  "end_or_today fromiso today NoneArg = Inr today"
  "end_or_today fromiso today (DateArg e) = Inr e"
  "end_or_today fromiso today (DatetimeArg e t) = Inr e"
  by (simp_all add: end_or_today_def truthy_def normalize_date_def)





lemma weekly_avg_over_window:
  assumes "table_ok s" and "end_or_today fromiso today end_date = Inr e"
  shows "weekly_avg fromiso today s uid end_date =
      Inr (if {r \<in> set s. user_id r = uid \<and> e - 6 \<le> date r \<and> date r \<le> e} = {} then None
           else Some ((\<Sum>r \<in> {r \<in> set s. user_id r = uid \<and> e - 6 \<le> date r \<and> date r \<le> e}. scj r)
                      / of_nat (card {r \<in> set s. user_id r = uid \<and> e - 6 \<le> date r \<and> date r \<le> e})))"
proof -
  let ?P = "\<lambda>r. user_id r = uid \<and> e - 6 \<le> date r \<and> date r \<le> e"
  have d: "distinct (filter ?P s)" using assms(1) by (simp add: table_ok_distinct)
  have set: "set (filter ?P s) = {r \<in> set s. ?P r}" by simp
  have "sum_list (map scj (filter ?P s)) / of_nat (length (filter ?P s))
      = (\<Sum>r \<in> {r \<in> set s. ?P r}. scj r) / of_nat (card {r \<in> set s. ?P r})"
    using mean_of_distinct [OF d, of scj] by (simp only: set)
  moreover have "filter ?P s = [] \<longleftrightarrow> {r \<in> set s. ?P r} = {}"
    by (auto simp: filter_empty_conv)
  ultimately show ?thesis
    using assms(2) by (simp add: weekly_avg_def Let_def del: set_filter)
qed

text \<open>
  Claim C7. \<open>weekly_avg\<close> returns the arithmetic mean of \<open>scj\<close> over exactly the rows of the
  user whose day lies between the end day minus 6 and the end day, both included; days
  without a row do not count, and with no row in the window the result is \<open>None\<close>. The end
  day is today when the argument is \<^verbatim>\<open>None\<close>. A full week of the scores 1 to 7 gives 4, a
  week with the scores 5, 7 and 9 only gives 7, and an empty table gives \<open>None\<close>.
\<close>

theorem weekly_avg_window_mean:
  "(table_ok s \<and> end_or_today fromiso today end_date = Inr e \<longrightarrow>
      weekly_avg fromiso today s uid end_date =
        Inr (if {r \<in> set s. user_id r = uid \<and> e - 6 \<le> date r \<and> date r \<le> e} = {} then None
             else Some ((\<Sum>r \<in> {r \<in> set s. user_id r = uid \<and> e - 6 \<le> date r \<and> date r \<le> e}. scj r)
                        / of_nat (card {r \<in> set s. user_id r = uid \<and> e - 6 \<le> date r \<and> date r \<le> e}))))
   \<and> end_or_today fromiso today NoneArg = Inr today
   \<and> end_or_today fromiso today (DateArg e) = Inr e
   \<and> weekly_avg no_parser today week_full 1 (DateArg 739439) = Inr (Some 4)
   \<and> weekly_avg no_parser today week_sparse 1 (DateArg 739439) = Inr (Some 7)
   \<and> weekly_avg no_parser today [] 1 (DateArg 739439) = Inr None"
proof (intro conjI impI)
  assume "table_ok s \<and> end_or_today fromiso today end_date = Inr e"
  then show "weekly_avg fromiso today s uid end_date =
        Inr (if {r \<in> set s. user_id r = uid \<and> e - 6 \<le> date r \<and> date r \<le> e} = {} then None
             else Some ((\<Sum>r \<in> {r \<in> set s. user_id r = uid \<and> e - 6 \<le> date r \<and> date r \<le> e}. scj r)
                        / of_nat (card {r \<in> set s. user_id r = uid \<and> e - 6 \<le> date r \<and> date r \<le> e})))"
    using weekly_avg_over_window [of s fromiso today end_date e uid] by blast
next
  show "weekly_avg no_parser today week_full 1 (DateArg 739439) = Inr (Some 4)"
    by (simp add: weekly_avg_def end_or_today_cases week_full_def test_row_def Let_def)
  show "weekly_avg no_parser today week_sparse 1 (DateArg 739439) = Inr (Some 7)"
    by (simp add: weekly_avg_def end_or_today_cases week_sparse_def test_row_def Let_def)
  show "weekly_avg no_parser today [] 1 (DateArg 739439) = Inr None"
    by (simp add: weekly_avg_def end_or_today_cases Let_def)
qed (simp_all add: end_or_today_cases)

text \<open>The theorem at the table of the sparse week.\<close>

theorem weekly_avg_window_mean_witness:
  "table_ok week_sparse \<and> end_or_today no_parser 0 (DateArg 739439) = Inr 739439
   \<and> weekly_avg no_parser 0 week_sparse 1 (DateArg 739439) =
        Inr (if {r \<in> set week_sparse. user_id r = 1 \<and> 739439 - 6 \<le> date r \<and> date r \<le> 739439} = {} then None
             else Some ((\<Sum>r \<in> {r \<in> set week_sparse. user_id r = 1 \<and> 739439 - 6 \<le> date r \<and> date r \<le> 739439}. scj r)
                        / of_nat (card {r \<in> set week_sparse. user_id r = 1 \<and> 739439 - 6 \<le> date r \<and> date r \<le> 739439})))"
proof -
  have h1: "table_ok week_sparse" by (rule week_sparse_ok)
  have h2: "end_or_today no_parser 0 (DateArg 739439) = Inr 739439"
    by (simp add: end_or_today_cases)
  from weekly_avg_window_mean [where s = week_sparse and fromiso = no_parser and today = 0
      and end_date = "DateArg 739439" and e = 739439 and uid = 1] h1 h2
  show ?thesis by blast
qed





text \<open>
  Claim C9, amended. When \<open>upsert\<close> finds a row for the pair of user and day, the row that
  results keeps \<open>user_id\<close> and \<open>date\<close> and keeps every column that the call does not pass:
  \<open>id\<close>, \<open>created_at\<close> and the data columns, the text among them. Every column that the call
  passes gets the value passed, \<open>id\<close> and \<open>created_at\<close> included. The row is the only row of
  the pair, and the rows of the other pairs are unchanged. When the \<^verbatim>\<open>id\<close> passed is the \<open>id\<close>
  of another row, the call fails and the table is unchanged.
\<close>

theorem upsert_frame:
  assumes "keys_ok s" and "normalize_date fromiso d = Inr dy"
    and "rec \<in> set s" and "user_id rec = uid" and "date rec = dy"
  shows "((\<forall>i. f_id f = Some i \<longrightarrow> i = id' rec \<or> i \<notin> id' ` set s) \<longrightarrow>
          (\<exists>r' s'. upsert fromiso s now uid d f = (Inr r', s')
            \<and> filter (\<lambda>r. user_id r = uid \<and> date r = dy) s' = [r']
            \<and> filter (\<lambda>r. \<not> (user_id r = uid \<and> date r = dy)) s'
                = filter (\<lambda>r. \<not> (user_id r = uid \<and> date r = dy)) s
            \<and> user_id r' = user_id rec \<and> date r' = date rec
            \<and> (f_id f = None \<longrightarrow> id' r' = id' rec)
            \<and> (f_created_at f = None \<longrightarrow> created_at r' = created_at rec)
            \<and> (f_humeur f = None \<longrightarrow> humeur r' = humeur rec)
            \<and> (f_sommeil f = None \<longrightarrow> sommeil r' = sommeil rec)
            \<and> (f_stress f = None \<longrightarrow> stress r' = stress rec)
            \<and> (f_concentration f = None \<longrightarrow> concentration r' = concentration rec)
            \<and> (f_scj f = None \<longrightarrow> scj r' = scj rec)
            \<and> (f_interpretation f = None \<longrightarrow> interpretation_text r' = interpretation_text rec)
            \<and> (\<forall>v. f_id f = Some v \<longrightarrow> id' r' = v)
            \<and> (\<forall>v. f_created_at f = Some v \<longrightarrow> created_at r' = v)
            \<and> (\<forall>v. f_humeur f = Some v \<longrightarrow> humeur r' = v)
            \<and> (\<forall>v. f_sommeil f = Some v \<longrightarrow> sommeil r' = v)
            \<and> (\<forall>v. f_stress f = Some v \<longrightarrow> stress r' = v)
            \<and> (\<forall>v. f_concentration f = Some v \<longrightarrow> concentration r' = v)
            \<and> (\<forall>v. f_scj f = Some v \<longrightarrow> scj r' = v)
            \<and> (\<forall>v. f_interpretation f = Some v \<longrightarrow> interpretation_text r' = v)))
       \<and> (\<not> (\<forall>i. f_id f = Some i \<longrightarrow> i = id' rec \<or> i \<notin> id' ` set s) \<longrightarrow>
            upsert fromiso s now uid d f = (Inl (IntegrityError PrimaryKey), s))"
proof (intro conjI impI)
  assume free: "\<forall>i. f_id f = Some i \<longrightarrow> i = id' rec \<or> i \<notin> id' ` set s"
  let ?r = "setattrs f rec"
  let ?s = "update_row (id' rec) ?r s"
  have pk: "id' ?r = id' rec \<or> id' ?r \<notin> id' ` set s"
    using free by (simp only: id_keyword_free)
  have up: "upsert fromiso s now uid d f = (Inr ?r, ?s)"
    using upsert_existing [OF assms, of now f] pk by simp
  have ok': "keys_ok ?s"
    using assms(1,3) _ _ pk by (rule keys_ok_update) simp_all
  have mem: "?r \<in> set ?s"
    using assms(3) by (rule update_row_mem)
  have "uq_user_day ?s" using ok' by (simp add: keys_ok_def)
  then have one: "filter (\<lambda>r. user_id r = uid \<and> date r = dy) ?s = [?r]"
    using mem by (rule filter_key_single) (simp_all add: assms(4,5))
  have "distinct (map id' s)" using assms(1) by (simp add: keys_ok_def)
  then have frame: "filter (\<lambda>r. \<not> (user_id r = uid \<and> date r = dy)) ?s
          = filter (\<lambda>r. \<not> (user_id r = uid \<and> date r = dy)) s"
    using assms(3) by (rule update_row_frame) (simp_all add: assms(4,5))
  show "\<exists>r' s'. upsert fromiso s now uid d f = (Inr r', s')
            \<and> filter (\<lambda>r. user_id r = uid \<and> date r = dy) s' = [r']
            \<and> filter (\<lambda>r. \<not> (user_id r = uid \<and> date r = dy)) s'
                = filter (\<lambda>r. \<not> (user_id r = uid \<and> date r = dy)) s
            \<and> user_id r' = user_id rec \<and> date r' = date rec
            \<and> (f_id f = None \<longrightarrow> id' r' = id' rec)
            \<and> (f_created_at f = None \<longrightarrow> created_at r' = created_at rec)
            \<and> (f_humeur f = None \<longrightarrow> humeur r' = humeur rec)
            \<and> (f_sommeil f = None \<longrightarrow> sommeil r' = sommeil rec)
            \<and> (f_stress f = None \<longrightarrow> stress r' = stress rec)
            \<and> (f_concentration f = None \<longrightarrow> concentration r' = concentration rec)
            \<and> (f_scj f = None \<longrightarrow> scj r' = scj rec)
            \<and> (f_interpretation f = None \<longrightarrow> interpretation_text r' = interpretation_text rec)
            \<and> (\<forall>v. f_id f = Some v \<longrightarrow> id' r' = v)
            \<and> (\<forall>v. f_created_at f = Some v \<longrightarrow> created_at r' = v)
            \<and> (\<forall>v. f_humeur f = Some v \<longrightarrow> humeur r' = v)
            \<and> (\<forall>v. f_sommeil f = Some v \<longrightarrow> sommeil r' = v)
            \<and> (\<forall>v. f_stress f = Some v \<longrightarrow> stress r' = v)
            \<and> (\<forall>v. f_concentration f = Some v \<longrightarrow> concentration r' = v)
            \<and> (\<forall>v. f_scj f = Some v \<longrightarrow> scj r' = v)
            \<and> (\<forall>v. f_interpretation f = Some v \<longrightarrow> interpretation_text r' = v)"
    using up one frame setattrs_supplied [of f rec] setattrs_omitted [of f rec]
    by (intro exI [of _ ?r] exI [of _ ?s]) simp
next
  assume "\<not> (\<forall>i. f_id f = Some i \<longrightarrow> i = id' rec \<or> i \<notin> id' ` set s)"
  then have c: "\<not> (id' (setattrs f rec) = id' rec \<or> id' (setattrs f rec) \<notin> id' ` set s)"
    unfolding id_keyword_free .
  show "upsert fromiso s now uid d f = (Inl (IntegrityError PrimaryKey), s)"
    by (simp only: upsert_existing [OF assms, of now f] c if_False)
qed

text \<open>The theorem at a table of one row and a call that passes \<^verbatim>\<open>id\<close> and \<^verbatim>\<open>created_at\<close> only.\<close>

theorem upsert_frame_witness:
  "keys_ok [stored_row] \<and> normalize_date no_parser (DateArg 739313) = Inr 739313
   \<and> stored_row \<in> set [stored_row] \<and> user_id stored_row = 1 \<and> date stored_row = 739313
   \<and> f_id id_entry = Some 99 \<and> 99 \<notin> id' ` set [stored_row]
   \<and> f_created_at id_entry = Some 7 \<and> f_scj id_entry = None \<and> f_interpretation id_entry = None
   \<and> (\<exists>r' s'. upsert no_parser [stored_row] 5 1 (DateArg 739313) id_entry = (Inr r', s')
         \<and> filter (\<lambda>r. user_id r = 1 \<and> date r = 739313) s' = [r']
         \<and> user_id r' = user_id stored_row \<and> date r' = date stored_row
         \<and> id' r' = 99 \<and> created_at r' = 7
         \<and> scj r' = scj stored_row
         \<and> interpretation_text r' = interpretation_text stored_row)"
proof -
  have h1: "keys_ok [stored_row]" by (rule stored_keys)
  have h2: "normalize_date no_parser (DateArg 739313) = Inr 739313" by (rule normalize_DateArg)
  have h3: "stored_row \<in> set [stored_row]" "user_id stored_row = 1" "date stored_row = 739313"
    by (simp_all add: stored_row_def)
  have h4: "f_id id_entry = Some 99" "f_created_at id_entry = Some 7" "f_scj id_entry = None"
    "f_interpretation id_entry = None"
    by (simp_all add: id_entry_def)
  have h5: "99 \<notin> id' ` set [stored_row]" by (simp add: stored_row_def)
  have h6: "\<forall>i. f_id id_entry = Some i \<longrightarrow> i = id' stored_row \<or> i \<notin> id' ` set [stored_row]"
    using h4(1) h5 by simp
  note t = upsert_frame [OF h1 h2 h3, where now = 5 and f = id_entry]
  from mp [OF conjunct1 [OF t] h6]
  obtain r' s' where r: "upsert no_parser [stored_row] 5 1 (DateArg 739313) id_entry = (Inr r', s')"
    "filter (\<lambda>r. user_id r = 1 \<and> date r = 739313) s' = [r']"
    "user_id r' = user_id stored_row" "date r' = date stored_row"
    "f_scj id_entry = None \<longrightarrow> scj r' = scj stored_row"
    "f_interpretation id_entry = None \<longrightarrow> interpretation_text r' = interpretation_text stored_row"
    "\<forall>v. f_id id_entry = Some v \<longrightarrow> id' r' = v"
    "\<forall>v. f_created_at id_entry = Some v \<longrightarrow> created_at r' = v"
    by (elim exE conjE) (rule that)
  from r(7) h4(1) have v1: "id' r' = 99" by metis
  from r(8) h4(2) have v2: "created_at r' = 7" by metis
  from r(5) h4(3) have v3: "scj r' = scj stored_row" by metis
  from r(6) h4(4) have v4: "interpretation_text r' = interpretation_text stored_row" by metis
  note v = v1 v2 v3 v4
  from v r(1-4) have "\<exists>r' s'. upsert no_parser [stored_row] 5 1 (DateArg 739313) id_entry = (Inr r', s')
         \<and> filter (\<lambda>r. user_id r = 1 \<and> date r = 739313) s' = [r']
         \<and> user_id r' = user_id stored_row \<and> date r' = date stored_row
         \<and> id' r' = 99 \<and> created_at r' = 7
         \<and> scj r' = scj stored_row
         \<and> interpretation_text r' = interpretation_text stored_row"
    by (intro exI [of _ r'] exI [of _ s']) simp
  with h1 h2 h3 h4 h5 show ?thesis by (intro conjI)
qed

text \<open>
  \<open>id\<close> and \<open>created_at\<close> are not kept by every call: a call that passes \<^verbatim>\<open>id=99\<close> and
  \<^verbatim>\<open>created_at\<close> changes both in the stored row.
\<close>

theorem upsert_assigns_id_keyword:
  "upsert no_parser [stored_row] 5 1 (DateArg 739313) id_entry
     = (Inr (stored_row\<lparr>id' := 99, created_at := 7\<rparr>), [stored_row\<lparr>id' := 99, created_at := 7\<rparr>])
   \<and> id' (stored_row\<lparr>id' := 99, created_at := 7\<rparr>) \<noteq> id' stored_row
   \<and> created_at (stored_row\<lparr>id' := 99, created_at := 7\<rparr>) \<noteq> created_at stored_row"
  by (simp add: upsert_def normalize_date_def select_by_key_def stored_row_def id_entry_def
      setattrs_def update_row_def flush_update_def Let_def)

end
